theory Spec2Isabelle
  imports Complex_Main "HOL-Library.AList" "HOL-Library.Multiset"
    "HOL-Library.Char_ord" "HOL-Library.List_Lexorder"
begin

section \<open>JavaScript values used by the scripts\<close>

subsection \<open>Numbers\<close>

text \<open>
  A JavaScript Number is an IEEE binary64 value. The embedding keeps the three
  classes of values that decide control flow in the scripts (\<open>NaN\<close>, the finite
  values and the two infinities) and computes on finite values with exact
  rationals: rounding to 53 bits, overflow to an infinity and the sign of zero are
  not represented. Every theorem below that mentions a sum writes it as the same
  left-to-right chain of \<open>jsadd\<close> that the script executes.
\<close>

datatype number = NaN | Num rat | PosInfinity | NegInfinity

text \<open>\<^verbatim>\<open>a + b\<close> on Numbers.\<close>

fun jsadd :: "number \<Rightarrow> number \<Rightarrow> number" where
  "jsadd NaN y = NaN"
| "jsadd x NaN = NaN"
| "jsadd (Num a) (Num b) = Num (a + b)"
| "jsadd (Num a) y = y"
| "jsadd x (Num b) = x"
| "jsadd PosInfinity NegInfinity = NaN"
| "jsadd NegInfinity PosInfinity = NaN"
| "jsadd PosInfinity PosInfinity = PosInfinity"
| "jsadd NegInfinity NegInfinity = NegInfinity"

text \<open>Unary minus, and \<^verbatim>\<open>a - b\<close>, which is \<^verbatim>\<open>a + (-b)\<close>.\<close>

fun jsneg :: "number \<Rightarrow> number" where
  "jsneg NaN = NaN"
| "jsneg (Num a) = Num (- a)"
| "jsneg PosInfinity = NegInfinity"
| "jsneg NegInfinity = PosInfinity"

definition jssub :: "number \<Rightarrow> number \<Rightarrow> number" where
  "jssub x y = jsadd x (jsneg y)"

text \<open>An infinity of the sign of the rational \<open>a\<close>; \<open>NaN\<close> for zero.\<close>

definition signed_inf :: "rat \<Rightarrow> number" where
  "signed_inf a = (if a = 0 then NaN else if 0 < a then PosInfinity else NegInfinity)"

text \<open>\<^verbatim>\<open>a * b\<close> on Numbers.\<close>

fun jsmul :: "number \<Rightarrow> number \<Rightarrow> number" where
  "jsmul NaN y = NaN"
| "jsmul x NaN = NaN"
| "jsmul (Num a) (Num b) = Num (a * b)"
| "jsmul (Num a) PosInfinity = signed_inf a"
| "jsmul (Num a) NegInfinity = signed_inf (- a)"
| "jsmul PosInfinity (Num b) = signed_inf b"
| "jsmul NegInfinity (Num b) = signed_inf (- b)"
| "jsmul PosInfinity PosInfinity = PosInfinity"
| "jsmul PosInfinity NegInfinity = NegInfinity"
| "jsmul NegInfinity PosInfinity = NegInfinity"
| "jsmul NegInfinity NegInfinity = PosInfinity"

text \<open>\<^verbatim>\<open>a / b\<close> on Numbers; a zero divisor is taken as positive zero.\<close>

fun jsdiv :: "number \<Rightarrow> number \<Rightarrow> number" where
  "jsdiv NaN y = NaN"
| "jsdiv x NaN = NaN"
| "jsdiv (Num a) (Num b) = (if b = 0 then signed_inf a else Num (a / b))"
| "jsdiv (Num a) y = Num 0"
| "jsdiv PosInfinity (Num b) = (if 0 \<le> b then PosInfinity else NegInfinity)"
| "jsdiv NegInfinity (Num b) = (if 0 \<le> b then NegInfinity else PosInfinity)"
| "jsdiv x y = NaN"

text \<open>The comparisons \<^verbatim>\<open>a < b\<close> and \<^verbatim>\<open>a <= b\<close>: false as soon as one side is \<open>NaN\<close>.\<close>

fun jslt :: "number \<Rightarrow> number \<Rightarrow> bool" where
  "jslt NaN y = False"
| "jslt x NaN = False"
| "jslt (Num a) (Num b) = (a < b)"
| "jslt NegInfinity NegInfinity = False"
| "jslt NegInfinity y = True"
| "jslt PosInfinity y = False"
| "jslt (Num a) PosInfinity = True"
| "jslt (Num a) NegInfinity = False"

fun jsle :: "number \<Rightarrow> number \<Rightarrow> bool" where
  "jsle NaN y = False"
| "jsle x NaN = False"
| "jsle x y = (x = y \<or> jslt x y)"

definition jsgt :: "number \<Rightarrow> number \<Rightarrow> bool" where
  "jsgt x y = jslt y x"

definition jsge :: "number \<Rightarrow> number \<Rightarrow> bool" where
  "jsge x y = jsle y x"

subsection \<open>Strings\<close>

text \<open>
  Strings are lists of characters. \<open>toLowerCase\<close> maps the ASCII capitals to
  their small letters and leaves every other character alone, which is what
  \<^verbatim>\<open>String.prototype.toLowerCase\<close> does on the hexadecimal address strings the
  scripts handle.
\<close>

definition lower_char :: "char \<Rightarrow> char" where
  "lower_char c =
     (case map_of (zip ''ABCDEFGHIJKLMNOPQRSTUVWXYZ'' ''abcdefghijklmnopqrstuvwxyz'') c of
        None \<Rightarrow> c
      | Some d \<Rightarrow> d)"

definition toLowerCase :: "string \<Rightarrow> string" where
  "toLowerCase s = map lower_char s"

text \<open>\<^verbatim>\<open>s.includes(sub)\<close>: \<open>sub\<close> occurs in \<open>s\<close> as a contiguous substring.\<close>

fun str_includes :: "string \<Rightarrow> string \<Rightarrow> bool" where
  "str_includes [] sub = (sub = [])"
| "str_includes (c # cs) sub = (take (length sub) (c # cs) = sub \<or> str_includes cs sub)"

subsection \<open>parseFloat\<close>

text \<open>
  \<^verbatim>\<open>parseFloat(s)\<close> skips leading white space and reads the longest prefix that is
  a decimal literal: an optional sign, then either the word \<open>Infinity\<close> or digits
  with an optional fraction and an optional exponent. When no prefix is a literal
  the result is \<open>NaN\<close>. The finite value is the exact value of the literal: it is
  not rounded to binary64, a huge literal does not become an infinity and a tiny
  one does not become zero. White space is the six ASCII characters; the
  no-break space and the other Unicode spaces are not skipped. No general
  statement below depends on which number a string parses to.
\<close>

definition is_space :: "char \<Rightarrow> bool" where
  "is_space c = ((of_char c :: nat) \<in> {9, 10, 11, 12, 13, 32})"

definition is_digit :: "char \<Rightarrow> bool" where
  "is_digit c = (48 \<le> (of_char c :: nat) \<and> (of_char c :: nat) \<le> 57)"

definition digits_value :: "string \<Rightarrow> nat" where
  "digits_value ds = foldl (\<lambda>v c. 10 * v + (of_char c - 48)) 0 ds"

text \<open>The exponent part: \<open>e\<close> or \<open>E\<close>, an optional sign and at least one digit; otherwise no exponent.\<close>

definition exponent_part :: "string \<Rightarrow> int" where
  "exponent_part r =
     (case r of
        [] \<Rightarrow> 0
      | c # r1 \<Rightarrow>
          if c = CHR ''e'' \<or> c = CHR ''E'' then
            (case r1 of
               [] \<Rightarrow> 0
             | s # r2 \<Rightarrow>
                 if s = CHR ''-'' then - int (digits_value (takeWhile is_digit r2))
                 else if s = CHR ''+'' then int (digits_value (takeWhile is_digit r2))
                 else int (digits_value (takeWhile is_digit r1)))
          else 0)"

definition pow10 :: "int \<Rightarrow> rat" where
  "pow10 e = (if 0 \<le> e then 10 ^ nat e else 1 / 10 ^ nat (- e))"

definition unsigned_literal :: "string \<Rightarrow> number" where
  "unsigned_literal u =
     (if take 8 u = ''Infinity'' then PosInfinity
      else
        let ip = takeWhile is_digit u;
            r1 = dropWhile is_digit u;
            fp = (case r1 of [] \<Rightarrow> [] | c # r \<Rightarrow> if c = CHR ''.'' then takeWhile is_digit r else []);
            r2 = (case r1 of [] \<Rightarrow> [] | c # r \<Rightarrow> if c = CHR ''.'' then dropWhile is_digit r else r1)
        in if ip = [] \<and> fp = [] then NaN
           else Num (of_nat (digits_value (ip @ fp))
                     * pow10 (exponent_part r2 - int (length fp))))"

definition parseFloat :: "string \<Rightarrow> number" where
  "parseFloat s =
     (case dropWhile is_space s of
        [] \<Rightarrow> NaN
      | c # r \<Rightarrow>
          if c = CHR ''-'' then jsneg (unsigned_literal r)
          else if c = CHR ''+'' then unsigned_literal r
          else unsigned_literal (c # r))"

subsection \<open>Array.prototype.sort\<close>

text \<open>
  \<^verbatim>\<open>xs.sort(cmp)\<close> is a stable sort: \<open>x\<close> is placed after \<open>y\<close> only when
  \<^verbatim>\<open>cmp(x, y) > 0\<close>, and a comparator result of \<open>NaN\<close> counts as \<open>0\<close>. It is
  modelled as a stable insertion sort, which is the result of every stable sort
  when the comparator is a consistent order. When the comparator returns \<open>NaN\<close>
  for some pair it is not a consistent order; ECMAScript then leaves the
  resulting order to the engine, and an engine that inserts by binary search can
  end with another order than this model, also among records of equal value.
  So the model's order is the script's order only on lists without a \<open>NaN\<close>
  key, and no general statement below about the order goes beyond them.
\<close>

fun sort_insert :: "('a \<Rightarrow> 'a \<Rightarrow> number) \<Rightarrow> 'a \<Rightarrow> 'a list \<Rightarrow> 'a list" where
  "sort_insert cmp x [] = [x]"
| "sort_insert cmp x (y # ys) =
     (if jsgt (cmp x y) (Num 0) then y # sort_insert cmp x ys else x # y # ys)"

definition array_sort :: "('a \<Rightarrow> 'a \<Rightarrow> number) \<Rightarrow> 'a list \<Rightarrow> 'a list" where
  "array_sort cmp xs = foldr (sort_insert cmp) xs []"

section \<open>merge\_all\_lenders.js\<close>

subsection \<open>Input files\<close>

text \<open>
  The two JSON files, with the fields the script reads. Field names that occur
  in more than one object carry a prefix (\<open>h_\<close> for a holder entry, \<open>ld_\<close> and
  \<open>cd_\<close> for the two files). The types say that every field is there and is a
  string (a number for the block): a file that cannot be read or parsed, or that
  lacks one of these fields, makes the script throw before it writes anything and
  is not an input of the model.
\<close>

record holder =
  h_address :: string
  h_shares :: string

record lender_data =
  ld_timestamp :: string
  holders :: "holder list"

record contracts_rec =
  vault :: string
  gauge :: string
  convex_reward_contract :: string
  convex_booster :: string
  convex_voter_proxy :: string

record vault_state_rec =
  total_supply_shares :: string
  total_assets_crvusd :: string
  price_per_share :: string

record convex_data =
  cd_timestamp :: string
  cd_block :: nat
  cd_chain :: string
  contracts :: contracts_rec
  vault_state :: vault_state_rec
  convex_active_holders :: "holder list"
  direct_gauge_stakers :: "holder list"

definition pricePerShare :: "convex_data \<Rightarrow> number" where
  "pricePerShare convexData = parseFloat (price_per_share (vault_state convexData))"

definition totalVaultShares :: "convex_data \<Rightarrow> number" where
  "totalVaultShares convexData = parseFloat (total_supply_shares (vault_state convexData))"

definition EXCLUDED_CONTRACTS :: "convex_data \<Rightarrow> string set" where
  "EXCLUDED_CONTRACTS convexData =
     {toLowerCase (gauge (contracts convexData)),
      toLowerCase (convex_voter_proxy (contracts convexData)),
      toLowerCase (convex_booster (contracts convexData)),
      toLowerCase (convex_reward_contract (contracts convexData))}"

subsection \<open>The accumulator map\<close>

record position =
  shares :: number
  crvusd_value :: number

record positions_rec =
  direct_vault :: "position option"
  convex :: "position option"
  direct_gauge :: "position option"

record lender =
  address :: string
  positions :: positions_rec
  total_shares :: number
  total_crvusd_value :: number
  pct_of_vault :: string
  sources :: "string list"

text \<open>
  \<^verbatim>\<open>merged\<close> is a JavaScript \<open>Map\<close> from the lower-cased address to its record.
  A \<open>Map\<close> iterates in insertion order, so it is an association list; a new key
  is appended. \<^verbatim>\<open>getOrCreate\<close> returns a reference to the stored record, and the
  loop bodies then assign to its fields: the model returns the map (with the blank
  record added when the key was new) together with the record, and the loop body
  writes the changed record back under the same key with \<open>AList.update\<close>, which
  keeps the entry's place in the list.
\<close>

type_synonym merged_map = "(string \<times> lender) list"

definition blank_record :: "string \<Rightarrow> lender" where
  "blank_record addr =
     \<lparr>address = addr,
      positions = \<lparr>direct_vault = None, convex = None, direct_gauge = None\<rparr>,
      total_shares = Num 0,
      total_crvusd_value = Num 0,
      pct_of_vault = ''0.00'',
      sources = []\<rparr>"

definition getOrCreate :: "merged_map \<Rightarrow> string \<Rightarrow> merged_map \<times> lender" where
  "getOrCreate merged addr =
     (let key = toLowerCase addr in
      case map_of merged key of
        None \<Rightarrow> (merged @ [(key, blank_record addr)], blank_record addr)
      | Some r \<Rightarrow> (merged, r))"

subsection \<open>The three ingest loops\<close>

text \<open>One iteration of \<^verbatim>\<open>for (const h of lenderData.holders)\<close>.\<close>

definition ingest_direct_holder :: "string set \<Rightarrow> number \<Rightarrow> merged_map \<Rightarrow> holder \<Rightarrow> merged_map" where
  "ingest_direct_holder excluded price merged h =
     (let sh = parseFloat (h_shares h) in
      if jsle sh (Num 0) then merged
      else if toLowerCase (h_address h) \<in> excluded then merged
      else
        let (merged1, r) = getOrCreate merged (h_address h);
            crvusdValue = jsmul sh price;
            r1 = r\<lparr>positions := (positions r)\<lparr>direct_vault :=
                     Some \<lparr>shares = sh, crvusd_value = crvusdValue\<rparr>\<rparr>\<rparr>;
            r2 = r1\<lparr>total_shares := jsadd (total_shares r1) sh\<rparr>;
            r3 = r2\<lparr>total_crvusd_value := jsadd (total_crvusd_value r2) crvusdValue\<rparr>;
            r4 = (if ''direct_vault'' \<notin> set (sources r3)
                  then r3\<lparr>sources := sources r3 @ [''direct_vault'']\<rparr> else r3)
        in AList.update (toLowerCase (h_address h)) r4 merged1)"

text \<open>One iteration of \<^verbatim>\<open>for (const h of convexData.convex_active_holders)\<close>.\<close>

definition ingest_convex_holder :: "number \<Rightarrow> merged_map \<Rightarrow> holder \<Rightarrow> merged_map" where
  "ingest_convex_holder price merged h =
     (let sh = parseFloat (h_shares h) in
      if jsle sh (Num 0) then merged
      else
        let (merged1, r) = getOrCreate merged (h_address h);
            crvusdValue = jsmul sh price;
            r1 = r\<lparr>positions := (positions r)\<lparr>convex :=
                     Some \<lparr>shares = sh, crvusd_value = crvusdValue\<rparr>\<rparr>\<rparr>;
            r2 = r1\<lparr>total_shares := jsadd (total_shares r1) sh\<rparr>;
            r3 = r2\<lparr>total_crvusd_value := jsadd (total_crvusd_value r2) crvusdValue\<rparr>;
            r4 = (if ''convex'' \<notin> set (sources r3)
                  then r3\<lparr>sources := sources r3 @ [''convex'']\<rparr> else r3)
        in AList.update (toLowerCase (h_address h)) r4 merged1)"

text \<open>One iteration of \<^verbatim>\<open>for (const h of convexData.direct_gauge_stakers)\<close>.\<close>

definition ingest_gauge_staker :: "number \<Rightarrow> merged_map \<Rightarrow> holder \<Rightarrow> merged_map" where
  "ingest_gauge_staker price merged h =
     (let sh = parseFloat (h_shares h) in
      if jsle sh (Num 0) then merged
      else
        let (merged1, r) = getOrCreate merged (h_address h);
            crvusdValue = jsmul sh price;
            r1 = r\<lparr>positions := (positions r)\<lparr>direct_gauge :=
                     Some \<lparr>shares = sh, crvusd_value = crvusdValue\<rparr>\<rparr>\<rparr>;
            r2 = r1\<lparr>total_shares := jsadd (total_shares r1) sh\<rparr>;
            r3 = r2\<lparr>total_crvusd_value := jsadd (total_crvusd_value r2) crvusdValue\<rparr>;
            r4 = (if ''direct_gauge'' \<notin> set (sources r3)
                  then r3\<lparr>sources := sources r3 @ [''direct_gauge'']\<rparr> else r3)
        in AList.update (toLowerCase (h_address h)) r4 merged1)"

text \<open>The map after the three loops, which run in this order on the map that starts empty.\<close>

definition ingest_all :: "lender_data \<Rightarrow> convex_data \<Rightarrow> merged_map" where
  "ingest_all lenderData convexData =
     (let price = pricePerShare convexData;
          m1 = foldl (ingest_direct_holder (EXCLUDED_CONTRACTS convexData) price) []
                 (holders lenderData);
          m2 = foldl (ingest_convex_holder price) m1 (convex_active_holders convexData)
      in foldl (ingest_gauge_staker price) m2 (direct_gauge_stakers convexData))"

subsection \<open>Percentages, sorting and formatting\<close>

text \<open>
  \<^verbatim>\<open>Number.prototype.toFixed\<close> renders a binary64 value in decimal. It is not part
  of the repository and works on the bits of the value, so it is a parameter
  \<open>toFixed\<close> of every function that formats: \<open>toFixed n d\<close> stands for
  \<^verbatim>\<open>n.toFixed(d)\<close>.
\<close>

definition fmtShares :: "(number \<Rightarrow> nat \<Rightarrow> string) \<Rightarrow> number \<Rightarrow> string" where
  "fmtShares toFixed n = toFixed n 18"

definition fmtCrvusd :: "(number \<Rightarrow> nat \<Rightarrow> string) \<Rightarrow> number \<Rightarrow> string" where
  "fmtCrvusd toFixed n = toFixed n 6"

text \<open>\<^verbatim>\<open>for (const rec of merged.values()) rec.pct_of_vault = ...\<close>\<close>

definition compute_pct :: "(number \<Rightarrow> nat \<Rightarrow> string) \<Rightarrow> number \<Rightarrow> merged_map \<Rightarrow> merged_map" where
  "compute_pct toFixed totalShares merged =
     map (\<lambda>(key, r).
            (key, r\<lparr>pct_of_vault :=
                      toFixed (jsmul (jsdiv (total_shares r) totalShares) (Num 100)) 2\<rparr>))
         merged"

text \<open>The comparator \<^verbatim>\<open>(a, b) => b.total_crvusd_value - a.total_crvusd_value\<close>.\<close>

definition by_value_desc :: "lender \<Rightarrow> lender \<Rightarrow> number" where
  "by_value_desc a b = jssub (total_crvusd_value b) (total_crvusd_value a)"

text \<open>\<^verbatim>\<open>const sorted = [...merged.values()].sort(...)\<close>\<close>

definition sorted_records ::
  "(number \<Rightarrow> nat \<Rightarrow> string) \<Rightarrow> lender_data \<Rightarrow> convex_data \<Rightarrow> lender list" where
  "sorted_records toFixed lenderData convexData =
     array_sort by_value_desc
       (map snd (compute_pct toFixed (totalVaultShares convexData)
                   (ingest_all lenderData convexData)))"

record formatted_position =
  fmt_shares :: string
  fmt_crvusd_value :: string

text \<open>The \<^verbatim>\<open>breakdown\<close> object has a key only for a position that is not null.\<close>

record breakdown =
  bd_direct_vault :: "formatted_position option"
  bd_convex :: "formatted_position option"
  bd_direct_gauge :: "formatted_position option"

record formatted_lender =
  rank :: nat
  fl_address :: string
  fl_total_shares :: string
  fl_total_crvusd_value :: string
  fl_pct_of_vault :: string
  fl_sources :: "string list"
  fl_positions :: breakdown

definition format_position :: "(number \<Rightarrow> nat \<Rightarrow> string) \<Rightarrow> position \<Rightarrow> formatted_position" where
  "format_position toFixed p =
     \<lparr>fmt_shares = fmtShares toFixed (shares p),
      fmt_crvusd_value = fmtCrvusd toFixed (crvusd_value p)\<rparr>"

definition format_lender :: "(number \<Rightarrow> nat \<Rightarrow> string) \<Rightarrow> lender \<Rightarrow> nat \<Rightarrow> formatted_lender" where
  "format_lender toFixed r idx =
     \<lparr>rank = idx + 1,
      fl_address = address r,
      fl_total_shares = fmtShares toFixed (total_shares r),
      fl_total_crvusd_value = fmtCrvusd toFixed (total_crvusd_value r),
      fl_pct_of_vault = pct_of_vault r,
      fl_sources = sources r,
      fl_positions =
        \<lparr>bd_direct_vault = map_option (format_position toFixed) (direct_vault (positions r)),
         bd_convex = map_option (format_position toFixed) (convex (positions r)),
         bd_direct_gauge = map_option (format_position toFixed) (direct_gauge (positions r))\<rparr>\<rparr>"

text \<open>\<^verbatim>\<open>sorted.map((rec, idx) => ...)\<close>\<close>

definition formattedLenders :: "(number \<Rightarrow> nat \<Rightarrow> string) \<Rightarrow> lender list \<Rightarrow> formatted_lender list" where
  "formattedLenders toFixed srt =
     map (\<lambda>(r, idx). format_lender toFixed r idx) (zip srt [0..<length srt])"

subsection \<open>The output object\<close>

record source_summary =
  src_count :: nat
  src_total_crvusd :: string

record by_source_rec =
  bs_direct_vault :: source_summary
  bs_convex :: source_summary
  bs_direct_gauge :: source_summary

record summary_rec =
  unique_lenders :: nat
  multi_source_lenders :: nat
  total_tracked_shares :: string
  total_tracked_crvusd :: string
  coverage_pct :: string
  by_source :: by_source_rec

record source_timestamps_rec =
  st_lender_data :: string
  st_convex_lender_data :: string

record vault_rec =
  v_address :: string
  v_total_supply_shares :: string
  v_total_assets_crvusd :: string
  v_price_per_share :: string
  v_block :: nat
  v_chain :: string

record output_rec =
  generated_at :: string
  description :: string
  source_timestamps :: source_timestamps_rec
  out_vault :: vault_rec
  summary :: summary_rec
  lenders :: "formatted_lender list"

text \<open>
  \<^verbatim>\<open>sorted.filter(r => r.positions.X).reduce((s, r) => s + r.positions.X.crvusd_value, 0)\<close>
  for a position slot \<open>X\<close>.
\<close>

definition source_total :: "(lender \<Rightarrow> position option) \<Rightarrow> lender list \<Rightarrow> number" where
  "source_total slot srt =
     foldl (\<lambda>s r. jsadd s (crvusd_value (the (slot r)))) (Num 0)
       (filter (\<lambda>r. slot r \<noteq> None) srt)"

definition source_count :: "string \<Rightarrow> lender list \<Rightarrow> nat" where
  "source_count name srt = length (filter (\<lambda>r. name \<in> set (sources r)) srt)"

text \<open>
  The whole script as a function of the two input files and of the clock:
  \<open>now\<close> is the value of \<^verbatim>\<open>new Date().toISOString()\<close>.
\<close>

definition merge_all_lenders ::
  "(number \<Rightarrow> nat \<Rightarrow> string) \<Rightarrow> string \<Rightarrow> lender_data \<Rightarrow> convex_data \<Rightarrow> output_rec" where
  "merge_all_lenders toFixed now lenderData convexData =
     (let srt = sorted_records toFixed lenderData convexData;
          totalMergedShares = foldl (\<lambda>sum r. jsadd sum (total_shares r)) (Num 0) srt;
          totalMergedCrvusd = foldl (\<lambda>sum r. jsadd sum (total_crvusd_value r)) (Num 0) srt;
          multiSourceCount = length (filter (\<lambda>r. 1 < length (sources r)) srt)
      in \<lparr>generated_at = now,
          description = ''Unified lender view merging direct vault holders, Convex depositors, and direct gauge stakers. Addresses appearing in multiple categories have their positions summed.'',
          source_timestamps =
            \<lparr>st_lender_data = ld_timestamp lenderData,
             st_convex_lender_data = cd_timestamp convexData\<rparr>,
          out_vault =
            \<lparr>v_address = vault (contracts convexData),
             v_total_supply_shares = total_supply_shares (vault_state convexData),
             v_total_assets_crvusd = total_assets_crvusd (vault_state convexData),
             v_price_per_share = price_per_share (vault_state convexData),
             v_block = cd_block convexData,
             v_chain = cd_chain convexData\<rparr>,
          summary =
            \<lparr>unique_lenders = length srt,
             multi_source_lenders = multiSourceCount,
             total_tracked_shares = fmtShares toFixed totalMergedShares,
             total_tracked_crvusd = fmtCrvusd toFixed totalMergedCrvusd,
             coverage_pct =
               toFixed (jsmul (jsdiv totalMergedShares (totalVaultShares convexData)) (Num 100)) 2,
             by_source =
               \<lparr>bs_direct_vault =
                  \<lparr>src_count = source_count ''direct_vault'' srt,
                   src_total_crvusd =
                     fmtCrvusd toFixed (source_total (\<lambda>r. direct_vault (positions r)) srt)\<rparr>,
                bs_convex =
                  \<lparr>src_count = source_count ''convex'' srt,
                   src_total_crvusd =
                     fmtCrvusd toFixed (source_total (\<lambda>r. convex (positions r)) srt)\<rparr>,
                bs_direct_gauge =
                  \<lparr>src_count = source_count ''direct_gauge'' srt,
                   src_total_crvusd =
                     fmtCrvusd toFixed (source_total (\<lambda>r. direct_gauge (positions r)) srt)\<rparr>\<rparr>\<rparr>,
          lenders = formattedLenders toFixed srt\<rparr>)"

section \<open>analyze\_selectors.js\<close>

subsection \<open>Input and accumulator\<close>

record borrow_event =
  txHash :: string
  timestamp :: string
  user :: string
  isSam :: bool
  samWallet :: "string option"
  collateral_increase_squid :: number
  loan_increase_crvusd :: number
  functionSelector :: string
  totalLogCount :: nat
  transferCount :: nat

record event_entry =
  ev_timestamp :: string
  ev_txHash :: string
  ev_selector :: string
  ev_classification :: string
  ev_isLeverage :: bool
  ev_collateral :: number
  ev_borrowed :: number
  ev_logCount :: nat
  ev_transferCount :: nat

record borrower =
  b_address :: string
  b_isSam :: bool
  b_samWallet :: "string option"
  events :: "event_entry list"
  totalCollateralDeposited :: number
  totalCrvUSDBorrowed :: number
  leverageCollateral :: number
  leverageBorrowed :: number
  standardCollateral :: number
  standardBorrowed :: number
  firstBorrow :: "string option"
  lastBorrow :: "string option"
  leverageCount :: nat
  standardCount :: nat

text \<open>
  The state of the classification loop: the object \<^verbatim>\<open>borrowerSummary\<close>, keyed
  by the user string as it is, and the lines written with \<^verbatim>\<open>console.log\<close> inside
  the loop. Keys are the \<open>0x\<close> strings of the input; the properties an object
  inherits from \<^verbatim>\<open>Object.prototype\<close> are not keys of the model.
\<close>

record classifier_state =
  borrowerSummary :: "(string \<times> borrower) list"
  console :: "string list"

definition OBSERVED_SELECTORS :: "(string \<times> string) list" where
  "OBSERVED_SELECTORS =
     [(''0x23cfed03'', ''create_loan (standard)''),
      (''0x4ba96d46'', ''create_loan_extended (LEVERAGE)''),
      (''0x24977ef3'', ''borrow_more_extended (LEVERAGE)''),
      (''0xdd171e7c'', ''borrow_more (standard)''),
      (''0x24049e57'', ''add_collateral (no borrow)'')]"

text \<open>\<^verbatim>\<open>OBSERVED_SELECTORS[event.functionSelector] || 'UNKNOWN'\<close>\<close>

definition classification :: "borrow_event \<Rightarrow> string" where
  "classification event =
     (case map_of OBSERVED_SELECTORS (functionSelector event) of
        None \<Rightarrow> ''UNKNOWN''
      | Some label \<Rightarrow> if label = [] then ''UNKNOWN'' else label)"

definition isLeverage :: "borrow_event \<Rightarrow> bool" where
  "isLeverage event = str_includes (classification event) ''LEVERAGE''"

definition isExtended :: "borrow_event \<Rightarrow> bool" where
  "isExtended event = (10 < totalLogCount event)"

text \<open>The decimal digits of a count, as a template literal prints it.\<close>

fun nat_to_string :: "nat \<Rightarrow> string" where
  "nat_to_string n =
     (if n < 10 then [''0123456789'' ! n]
      else nat_to_string (n div 10) @ [''0123456789'' ! (n mod 10)])"

declare nat_to_string.simps [simp del]

definition warning_line :: "borrow_event \<Rightarrow> string" where
  "warning_line event =
     ''  WARNING: '' @ txHash event @ '' classified as leverage but only ''
       @ nat_to_string (totalLogCount event) @ '' logs''"

definition new_borrower :: "borrow_event \<Rightarrow> borrower" where
  "new_borrower event =
     \<lparr>b_address = user event,
      b_isSam = isSam event,
      b_samWallet = samWallet event,
      events = [],
      totalCollateralDeposited = Num 0,
      totalCrvUSDBorrowed = Num 0,
      leverageCollateral = Num 0,
      leverageBorrowed = Num 0,
      standardCollateral = Num 0,
      standardBorrowed = Num 0,
      firstBorrow = None,
      lastBorrow = None,
      leverageCount = 0,
      standardCount = 0\<rparr>"

text \<open>\<^verbatim>\<open>!b.firstBorrow\<close>: the field is null or the empty string.\<close>

definition unset :: "string option \<Rightarrow> bool" where
  "unset t = (t = None \<or> t = Some [])"

text \<open>The changes the loop body makes to the borrower's record \<open>b\<close>.\<close>

definition account_event :: "borrow_event \<Rightarrow> borrower \<Rightarrow> borrower" where
  "account_event event b =
     (let b1 = b\<lparr>events := events b @
                   [\<lparr>ev_timestamp = timestamp event,
                     ev_txHash = txHash event,
                     ev_selector = functionSelector event,
                     ev_classification = classification event,
                     ev_isLeverage = isLeverage event,
                     ev_collateral = collateral_increase_squid event,
                     ev_borrowed = loan_increase_crvusd event,
                     ev_logCount = totalLogCount event,
                     ev_transferCount = transferCount event\<rparr>]\<rparr>;
          b2 = b1\<lparr>totalCollateralDeposited :=
                    jsadd (totalCollateralDeposited b1) (collateral_increase_squid event)\<rparr>;
          b3 = b2\<lparr>totalCrvUSDBorrowed :=
                    jsadd (totalCrvUSDBorrowed b2) (loan_increase_crvusd event)\<rparr>;
          b4 = (if isLeverage event then
                  b3\<lparr>leverageCollateral :=
                        jsadd (leverageCollateral b3) (collateral_increase_squid event),
                      leverageBorrowed :=
                        jsadd (leverageBorrowed b3) (loan_increase_crvusd event),
                      leverageCount := leverageCount b3 + 1\<rparr>
                else if str_includes (classification event) ''borrow''
                        \<or> str_includes (classification event) ''create'' then
                  b3\<lparr>standardCollateral :=
                        jsadd (standardCollateral b3) (collateral_increase_squid event),
                      standardBorrowed :=
                        jsadd (standardBorrowed b3) (loan_increase_crvusd event),
                      standardCount := standardCount b3 + 1\<rparr>
                else b3);
          b5 = (if unset (firstBorrow b4) \<or> timestamp event < the (firstBorrow b4)
                then b4\<lparr>firstBorrow := Some (timestamp event)\<rparr> else b4)
      in if unset (lastBorrow b5) \<or> the (lastBorrow b5) < timestamp event
         then b5\<lparr>lastBorrow := Some (timestamp event)\<rparr> else b5)"

text \<open>One iteration of \<^verbatim>\<open>for (const event of data.borrow_events)\<close>.\<close>

definition process_event :: "classifier_state \<Rightarrow> borrow_event \<Rightarrow> classifier_state" where
  "process_event st event =
     (let out = (if isLeverage event \<and> \<not> isExtended event
                 then console st @ [warning_line event] else console st);
          addr = user event;
          summary1 = (case map_of (borrowerSummary st) addr of
                        None \<Rightarrow> borrowerSummary st @ [(addr, new_borrower event)]
                      | Some b \<Rightarrow> borrowerSummary st);
          b = the (map_of summary1 addr)
      in \<lparr>borrowerSummary = AList.update addr (account_event event b) summary1,
          console = out\<rparr>)"

definition classify_all :: "borrow_event list \<Rightarrow> classifier_state" where
  "classify_all evs = foldl process_event \<lparr>borrowerSummary = [], console = []\<rparr> evs"

section \<open>Vocabulary of the properties\<close>

text \<open>
  The definitions of this section are not code of the scripts: they name what
  the properties below talk about.
\<close>

text \<open>The three source categories, their names in \<^verbatim>\<open>sources\<close> and their slots in \<^verbatim>\<open>positions\<close>.\<close>

datatype source = Direct_vault | Convex | Direct_gauge

fun source_name :: "source \<Rightarrow> string" where
  "source_name Direct_vault = ''direct_vault''"
| "source_name Convex = ''convex''"
| "source_name Direct_gauge = ''direct_gauge''"

fun slot :: "source \<Rightarrow> lender \<Rightarrow> position option" where
  "slot Direct_vault r = direct_vault (positions r)"
| "slot Convex r = convex (positions r)"
| "slot Direct_gauge r = direct_gauge (positions r)"

text \<open>The key of an input record, its parsed shares and the position a loop body builds from it.\<close>

definition key_of :: "holder \<Rightarrow> string" where
  "key_of h = toLowerCase (h_address h)"

definition parsed_shares :: "holder \<Rightarrow> number" where
  "parsed_shares h = parseFloat (h_shares h)"

definition position_of :: "number \<Rightarrow> holder \<Rightarrow> position" where
  "position_of price h =
     \<lparr>shares = parsed_shares h, crvusd_value = jsmul (parsed_shares h) price\<rparr>"

text \<open>
  The records of each input sequence that reach \<^verbatim>\<open>getOrCreate\<close>, in input order:
  those not skipped by \<^verbatim>\<open>shares <= 0\<close> and, in the first sequence, not skipped
  by the exclusion check.
\<close>

fun ingested :: "source \<Rightarrow> lender_data \<Rightarrow> convex_data \<Rightarrow> holder list" where
  "ingested Direct_vault lenderData convexData =
     filter (\<lambda>h. \<not> jsle (parsed_shares h) (Num 0) \<and> key_of h \<notin> EXCLUDED_CONTRACTS convexData)
       (holders lenderData)"
| "ingested Convex lenderData convexData =
     filter (\<lambda>h. \<not> jsle (parsed_shares h) (Num 0)) (convex_active_holders convexData)"
| "ingested Direct_gauge lenderData convexData =
     filter (\<lambda>h. \<not> jsle (parsed_shares h) (Num 0)) (direct_gauge_stakers convexData)"

text \<open>All of them in the order the script processes them, each with its category.\<close>

definition all_ingested :: "lender_data \<Rightarrow> convex_data \<Rightarrow> (source \<times> holder) list" where
  "all_ingested lenderData convexData =
     map (Pair Direct_vault) (ingested Direct_vault lenderData convexData)
     @ map (Pair Convex) (ingested Convex lenderData convexData)
     @ map (Pair Direct_gauge) (ingested Direct_gauge lenderData convexData)"

text \<open>Those of one case-insensitive identity \<open>k\<close>.\<close>

definition ingested_of :: "string \<Rightarrow> lender_data \<Rightarrow> convex_data \<Rightarrow> (source \<times> holder) list" where
  "ingested_of k lenderData convexData =
     filter (\<lambda>c. key_of (snd c) = k) (all_ingested lenderData convexData)"

text \<open>The distinct elements of \<open>xs\<close> in the order of their first occurrence, after those of \<open>acc\<close>.\<close>

definition first_seen :: "'a list \<Rightarrow> 'a list \<Rightarrow> 'a list" where
  "first_seen acc xs = foldl (\<lambda>acc x. if x \<in> set acc then acc else acc @ [x]) acc xs"

text \<open>A left-to-right sum starting from \<open>0\<close>, as \<^verbatim>\<open>total += x\<close> computes it.\<close>

definition running_sum :: "number list \<Rightarrow> number" where
  "running_sum xs = foldl jsadd (Num 0) xs"

text \<open>The positions a record holds, in the order of the slots.\<close>

definition present_positions :: "lender \<Rightarrow> position list" where
  "present_positions r =
     List.map_filter (\<lambda>s. slot s r) [Direct_vault, Convex, Direct_gauge]"

text \<open>The effect of one loop body on the record it got from \<^verbatim>\<open>getOrCreate\<close>.\<close>

fun set_slot :: "source \<Rightarrow> position \<Rightarrow> lender \<Rightarrow> lender" where
  "set_slot Direct_vault p r = r\<lparr>positions := (positions r)\<lparr>direct_vault := Some p\<rparr>\<rparr>"
| "set_slot Convex p r = r\<lparr>positions := (positions r)\<lparr>convex := Some p\<rparr>\<rparr>"
| "set_slot Direct_gauge p r = r\<lparr>positions := (positions r)\<lparr>direct_gauge := Some p\<rparr>\<rparr>"

definition accumulate :: "number \<Rightarrow> lender \<Rightarrow> source \<times> holder \<Rightarrow> lender" where
  "accumulate price r c =
     (let p = position_of price (snd c);
          r1 = set_slot (fst c) p r
      in r1\<lparr>total_shares := jsadd (total_shares r) (shares p),
            total_crvusd_value := jsadd (total_crvusd_value r) (crvusd_value p),
            sources := (if source_name (fst c) \<notin> set (sources r)
                        then sources r @ [source_name (fst c)] else sources r)\<rparr>)"

definition contribute :: "number \<Rightarrow> merged_map \<Rightarrow> source \<times> holder \<Rightarrow> merged_map" where
  "contribute price merged c =
     (let (merged1, r) = getOrCreate merged (h_address (snd c))
      in AList.update (key_of (snd c)) (accumulate price r c) merged1)"

text \<open>The comparator's order on values: \<open>a\<close> is not below \<open>b\<close>.\<close>

definition non_increasing :: "number list \<Rightarrow> bool" where
  "non_increasing vs = sorted_wrt (\<lambda>a b. jsge a b) vs"

text \<open>The table classification and the log-count heuristic disagree on an event.\<close>

definition mismatch :: "borrow_event \<Rightarrow> bool" where
  "mismatch event = (isLeverage event \<noteq> isExtended event)"

text \<open>A parsed amount that is zero or negative.\<close>

fun zero_or_negative :: "number \<Rightarrow> bool" where
  "zero_or_negative (Num a) = (a \<le> 0)"
| "zero_or_negative NegInfinity = True"
| "zero_or_negative n = False"

subsection \<open>Example inputs\<close>

text \<open>
  Small input files for the concrete instances below. The four infrastructure
  contracts are \<open>0xE1\<close> to \<open>0xE4\<close>, the price per share is \<open>2.0\<close> and the vault
  holds \<open>150\<close> shares. \<open>no_format\<close> stands in for \<^verbatim>\<open>toFixed\<close> where an instance
  needs some rendering and none of its statements reads the rendered text.
\<close>

definition entry :: "string \<Rightarrow> string \<Rightarrow> holder" where
  "entry a s = \<lparr>h_address = a, h_shares = s\<rparr>"

definition example_lender_data :: "holder list \<Rightarrow> lender_data" where
  "example_lender_data hs = \<lparr>ld_timestamp = ''2026-02-27T10:00:00.000Z'', holders = hs\<rparr>"

definition example_convex_data :: "holder list \<Rightarrow> holder list \<Rightarrow> convex_data" where
  "example_convex_data cs gs =
     \<lparr>cd_timestamp = ''2026-02-28T10:00:00.000Z'',
      cd_block = 1000,
      cd_chain = ''Fraxtal (252)'',
      contracts = \<lparr>vault = ''0xD0'', gauge = ''0xE1'', convex_reward_contract = ''0xE4'',
                   convex_booster = ''0xE3'', convex_voter_proxy = ''0xE2''\<rparr>,
      vault_state = \<lparr>total_supply_shares = ''150'', total_assets_crvusd = ''300'',
                     price_per_share = ''2.0''\<rparr>,
      convex_active_holders = cs,
      direct_gauge_stakers = gs\<rparr>"

definition no_format :: "number \<Rightarrow> nat \<Rightarrow> string" where
  "no_format n d = []"

text \<open>Convex depositors with a tie in value, and with one unparsable shares field.\<close>

definition tie_example :: convex_data where
  "tie_example =
     example_convex_data [entry ''0xA1'' ''1'', entry ''0xB2'' ''3'', entry ''0xC3'' ''1''] []"

definition unparsable_example :: convex_data where
  "unparsable_example =
     example_convex_data [entry ''0xA1'' ''1'', entry ''0xB2'' ''abc'', entry ''0xC3'' ''2''] []"

text \<open>One address twice among the Convex depositors, in two casings.\<close>

definition duplicate_example :: convex_data where
  "duplicate_example = example_convex_data [entry ''0xA1'' ''1'', entry ''0xa1'' ''2''] []"

text \<open>
  The scenario of the specification: one address as a direct holder with \<open>100\<close>
  shares and, in another casing, as a Convex depositor with \<open>50\<close> shares.
\<close>

definition scenario_lender_data :: lender_data where
  "scenario_lender_data = example_lender_data [entry ''0xAAA'' ''100'']"

definition scenario_convex_data :: convex_data where
  "scenario_convex_data = example_convex_data [entry ''0xaaa'' ''50''] []"

text \<open>
  The gauge contract \<open>0xE1\<close> listed as a direct holder, in small letters as a
  Convex depositor and again as a direct gauge staker, next to an ordinary
  direct holder.
\<close>

definition exclusion_lender_data :: lender_data where
  "exclusion_lender_data = example_lender_data [entry ''0xE1'' ''500'', entry ''0xAA'' ''100'']"

definition exclusion_convex_data :: convex_data where
  "exclusion_convex_data = example_convex_data [entry ''0xe1'' ''7''] [entry ''0xE1'' ''3'']"

text \<open>The record of the event's user before the loop body changes it.\<close>

definition borrower_before :: "classifier_state \<Rightarrow> borrow_event \<Rightarrow> borrower" where
  "borrower_before st event =
     (case map_of (borrowerSummary st) (user event) of
        None \<Rightarrow> new_borrower event
      | Some b \<Rightarrow> b)"

text \<open>A borrow event of user \<open>0xB0\<close> with a given selector, log count and amounts.\<close>

definition example_event :: "string \<Rightarrow> nat \<Rightarrow> rat \<Rightarrow> rat \<Rightarrow> borrow_event" where
  "example_event sel logs collateral loan =
     \<lparr>txHash = ''0x7a'',
      timestamp = ''2025-03-02T12:00:00.000Z'',
      user = ''0xB0'',
      isSam = False,
      samWallet = None,
      collateral_increase_squid = Num collateral,
      loan_increase_crvusd = Num loan,
      functionSelector = sel,
      totalLogCount = logs,
      transferCount = 1\<rparr>"

definition empty_state :: classifier_state where
  "empty_state = \<lparr>borrowerSummary = [], console = []\<rparr>"

section \<open>The ingest loops as one fold\<close>

text \<open>
  Each loop body either skips its record or does \<open>contribute\<close> for the loop's
  category, so the map after the three loops is a single fold of \<open>contribute\<close>
  over \<open>all_ingested\<close>.
\<close>

lemma ingest_direct_holder_contribute:
  "ingest_direct_holder ex price m h =
     (if \<not> jsle (parsed_shares h) (Num 0) \<and> key_of h \<notin> ex
      then contribute price m (Direct_vault, h) else m)"
  by (simp add: ingest_direct_holder_def contribute_def accumulate_def position_of_def
      parsed_shares_def key_of_def Let_def split: prod.splits)

lemma ingest_convex_holder_contribute:
  "ingest_convex_holder price m h =
     (if \<not> jsle (parsed_shares h) (Num 0) then contribute price m (Convex, h) else m)"
  by (simp add: ingest_convex_holder_def contribute_def accumulate_def position_of_def
      parsed_shares_def key_of_def Let_def split: prod.splits)

lemma ingest_gauge_staker_contribute:
  "ingest_gauge_staker price m h =
     (if \<not> jsle (parsed_shares h) (Num 0) then contribute price m (Direct_gauge, h) else m)"
  by (simp add: ingest_gauge_staker_def contribute_def accumulate_def position_of_def
      parsed_shares_def key_of_def Let_def split: prod.splits)

lemma foldl_filter_map:
  assumes "\<And>m h. f m h = (if P h then g m (s, h) else m)"
  shows "foldl f m hs = foldl g m (map (Pair s) (filter P hs))"
  by (induction hs arbitrary: m) (simp_all add: assms)

lemma ingest_all_contribute:
  "ingest_all ld cd = foldl (contribute (pricePerShare cd)) [] (all_ingested ld cd)"
  unfolding ingest_all_def all_ingested_def Let_def foldl_append ingested.simps
  by (simp only:
       foldl_filter_map [where f = "ingest_direct_holder (EXCLUDED_CONTRACTS cd) (pricePerShare cd)",
                         OF ingest_direct_holder_contribute]
       foldl_filter_map [where f = "ingest_convex_holder (pricePerShare cd)",
                         OF ingest_convex_holder_contribute]
       foldl_filter_map [where f = "ingest_gauge_staker (pricePerShare cd)",
                         OF ingest_gauge_staker_contribute])

subsection \<open>The map, key by key\<close>

lemma map_of_contribute:
  "map_of (contribute price m c) =
     (map_of m)(key_of (snd c) \<mapsto>
        accumulate price (case map_of m (key_of (snd c)) of
                            None \<Rightarrow> blank_record (h_address (snd c)) | Some r \<Rightarrow> r) c)"
  by (rule ext)
     (auto simp: contribute_def getOrCreate_def key_of_def Let_def update_conv' map_add_def
           split: option.splits)

lemma keys_contribute:
  "map fst (contribute price m c) =
     (if key_of (snd c) \<in> set (map fst m) then map fst m else map fst m @ [key_of (snd c)])"
  by (auto simp: contribute_def getOrCreate_def key_of_def Let_def update_keys map_of_eq_None_iff
           split: option.splits dest: map_of_SomeD)

lemma distinct_foldl_contribute:
  "distinct (map fst m) \<Longrightarrow> distinct (map fst (foldl (contribute price) m cs))"
  by (induction cs arbitrary: m) (simp_all add: keys_contribute)

lemma distinct_keys_ingest_all: "distinct (map fst (ingest_all ld cd))"
  by (simp add: ingest_all_contribute distinct_foldl_contribute)

text \<open>The map holds the identities in the order in which they were first ingested.\<close>

lemma keys_foldl_contribute:
  "map fst (foldl (contribute price) m cs) =
     first_seen (map fst m) (map (\<lambda>c. key_of (snd c)) cs)"
  by (induction cs arbitrary: m) (simp_all add: first_seen_def keys_contribute)

lemma insertion_order:
  "map fst (ingest_all ld cd) =
     first_seen [] (map (\<lambda>c. key_of (snd c)) (all_ingested ld cd))"
  by (simp add: ingest_all_contribute keys_foldl_contribute)

lemma keys_compute_pct: "map fst (compute_pct tf tot m) = map fst m"
  by (simp add: compute_pct_def case_prod_beta)

lemma map_of_foldl_contribute:
  "map_of (foldl (contribute price) m cs) k =
     (case filter (\<lambda>c. key_of (snd c) = k) cs of
        [] \<Rightarrow> map_of m k
      | c # cs' \<Rightarrow>
          Some (foldl (accumulate price)
                  (case map_of m k of None \<Rightarrow> blank_record (h_address (snd c)) | Some r \<Rightarrow> r)
                  (c # cs')))"
proof (induction cs arbitrary: m)
  case Nil
  show ?case by simp
next
  case (Cons c cs)
  show ?case
  proof (cases "key_of (snd c) = k")
    case True
    then show ?thesis
      by (simp add: Cons.IH map_of_contribute split: list.splits)
  next
    case False
    then show ?thesis
      by (simp add: Cons.IH map_of_contribute split: list.splits)
  qed
qed

text \<open>
  The record of identity \<open>k\<close> exists exactly when some ingested record has that
  identity; it is the blank record made for the first of them, changed by each
  of them in turn.
\<close>

lemma map_of_ingest_all:
  "map_of (ingest_all ld cd) k =
     (case ingested_of k ld cd of
        [] \<Rightarrow> None
      | c # cs \<Rightarrow>
          Some (foldl (accumulate (pricePerShare cd)) (blank_record (h_address (snd c))) (c # cs)))"
  by (simp add: ingest_all_contribute map_of_foldl_contribute ingested_of_def split: list.splits)

subsection \<open>What a sequence of contributions does to one record\<close>

lemma address_accumulate: "address (foldl (accumulate price) r cs) = address r"
  by (induction cs arbitrary: r) (simp_all add: accumulate_def Let_def, (case_tac "fst a"; simp)+)

lemma total_shares_accumulate:
  "total_shares (foldl (accumulate price) r cs) =
     foldl jsadd (total_shares r) (map (\<lambda>c. parsed_shares (snd c)) cs)"
  by (induction cs arbitrary: r) (simp_all add: accumulate_def Let_def position_of_def)

lemma total_value_accumulate:
  "total_crvusd_value (foldl (accumulate price) r cs) =
     foldl jsadd (total_crvusd_value r) (map (\<lambda>c. jsmul (parsed_shares (snd c)) price) cs)"
  by (induction cs arbitrary: r) (simp_all add: accumulate_def Let_def position_of_def)

lemma slot_accumulate1:
  "slot s (accumulate price r c) =
     (if fst c = s then Some (position_of price (snd c)) else slot s r)"
  by (cases s; cases "fst c"; simp add: accumulate_def Let_def)

lemma slot_accumulate:
  "slot s (foldl (accumulate price) r cs) =
     (case filter (\<lambda>c. fst c = s) cs of
        [] \<Rightarrow> slot s r
      | c # cs' \<Rightarrow> Some (position_of price (snd (last (c # cs')))))"
proof (induction cs arbitrary: r)
  case Nil
  show ?case by simp
next
  case (Cons c cs)
  show ?case
    by (simp add: Cons.IH slot_accumulate1 split: list.splits)
qed

lemma sources_accumulate1:
  "sources (accumulate price r c) =
     (if source_name (fst c) \<in> set (sources r) then sources r
      else sources r @ [source_name (fst c)])"
  by (cases "fst c"; simp add: accumulate_def Let_def)

lemma distinct_sources_accumulate:
  "distinct (sources r) \<Longrightarrow> distinct (sources (foldl (accumulate price) r cs))"
  by (induction cs arbitrary: r) (simp_all add: sources_accumulate1)

lemma set_sources_accumulate:
  "set (sources (foldl (accumulate price) r cs)) =
     set (sources r) \<union> (\<lambda>c. source_name (fst c)) ` set cs"
  by (induction cs arbitrary: r) (auto simp add: sources_accumulate1)

lemma jsle_zero_or_negative: "jsle n (Num 0) = zero_or_negative n"
  by (cases n) auto

subsection \<open>Evaluating the scripts on concrete inputs\<close>

lemmas parse_eval =
  parseFloat_def unsigned_literal_def is_space_def is_digit_def digits_value_def pow10_def
  exponent_part_def toLowerCase_def lower_char_def

lemmas merge_eval =
  ingest_all_def ingest_direct_holder_def ingest_convex_holder_def ingest_gauge_staker_def
  pricePerShare_def totalVaultShares_def EXCLUDED_CONTRACTS_def getOrCreate_def
  blank_record_def entry_def example_lender_data_def example_convex_data_def Let_def
  tie_example_def unparsable_example_def duplicate_example_def
  scenario_lender_data_def scenario_convex_data_def
  exclusion_lender_data_def exclusion_convex_data_def

lemmas vocabulary_eval =
  key_of_def parsed_shares_def position_of_def ingested_of_def all_ingested_def running_sum_def
  present_positions_def List.map_filter_def

subsection \<open>The sort\<close>

text \<open>
  The sort returns a permutation; it moves a record behind another one only when
  the other one's value is strictly larger, so records of equal value keep their
  order; and when no value is \<open>NaN\<close> the result is ordered.
\<close>

lemma array_sort_Nil: "array_sort cmp [] = []"
  by (simp add: array_sort_def)

lemma array_sort_Cons: "array_sort cmp (x # xs) = sort_insert cmp x (array_sort cmp xs)"
  by (simp add: array_sort_def)

lemma mset_sort_insert: "mset (sort_insert cmp x ys) = add_mset x (mset ys)"
  by (induction ys) simp_all

lemma mset_array_sort: "mset (array_sort cmp xs) = mset xs"
  by (induction xs) (simp_all add: array_sort_Nil array_sort_Cons mset_sort_insert)

lemma set_array_sort: "set (array_sort cmp xs) = set xs"
  using mset_array_sort [of cmp xs] by (metis set_mset_mset)

lemma length_array_sort: "length (array_sort cmp xs) = length xs"
  using mset_array_sort [of cmp xs] by (metis size_mset)

text \<open>
  The comparator's result \<^verbatim>\<open>b - a\<close> is positive exactly when \<open>a\<close> is below \<open>b\<close>.
  The model computes the difference exactly; on binary64 values the same
  equivalence needs that rounding keeps the sign of a difference and that a
  difference of unequal values is not zero, which gradual underflow gives.
\<close>

lemma jsgt_jssub: "jsgt (jssub b a) (Num 0) = jslt a b"
  by (cases a; cases b; simp add: jsgt_def jssub_def)

lemma after_iff: "jsgt (by_value_desc x y) (Num 0) = jslt (total_crvusd_value x) (total_crvusd_value y)"
  by (simp add: by_value_desc_def jsgt_jssub)

lemma jslt_irrefl: "\<not> jslt a a"
  by (cases a) simp_all

lemma jslt_jsge: "jslt a b \<Longrightarrow> jsge b a"
  by (cases a; cases b; simp add: jsge_def)

lemma not_jslt_jsge: "a \<noteq> NaN \<Longrightarrow> b \<noteq> NaN \<Longrightarrow> \<not> jslt a b \<Longrightarrow> jsge a b"
  by (cases a; cases b; simp add: jsge_def; linarith)

lemma jsge_trans: "jsge a b \<Longrightarrow> jsge b c \<Longrightarrow> jsge a c"
  by (cases a; cases b; cases c; simp add: jsge_def; linarith)

lemma filter_sort_insert:
  "filter (\<lambda>r. total_crvusd_value r = v) (sort_insert by_value_desc x ys) =
     filter (\<lambda>r. total_crvusd_value r = v) (x # ys)"
proof (induction ys)
  case Nil
  show ?case by simp
next
  case (Cons y ys)
  show ?case
  proof (cases "jsgt (by_value_desc x y) (Num 0)")
    case True
    then have "total_crvusd_value x \<noteq> total_crvusd_value y"
      using jslt_irrefl by (auto simp: after_iff)
    with True Cons.IH show ?thesis by auto
  next
    case False
    then show ?thesis by simp
  qed
qed

lemma filter_array_sort:
  "filter (\<lambda>r. total_crvusd_value r = v) (array_sort by_value_desc xs) =
     filter (\<lambda>r. total_crvusd_value r = v) xs"
  by (induction xs) (simp_all add: array_sort_Nil array_sort_Cons filter_sort_insert)

lemma sorted_sort_insert:
  assumes "sorted_wrt (\<lambda>a b. jsge (total_crvusd_value a) (total_crvusd_value b)) ys"
    and "total_crvusd_value x \<noteq> NaN"
    and "\<forall>y\<in>set ys. total_crvusd_value y \<noteq> NaN"
  shows "sorted_wrt (\<lambda>a b. jsge (total_crvusd_value a) (total_crvusd_value b))
           (sort_insert by_value_desc x ys)"
  using assms
proof (induction ys)
  case Nil
  show ?case by simp
next
  case (Cons y ys)
  show ?case
  proof (cases "jslt (total_crvusd_value x) (total_crvusd_value y)")
    case True
    have "set (sort_insert by_value_desc x ys) = insert x (set ys)"
      using mset_sort_insert [of by_value_desc x ys] by (metis set_mset_mset set_mset_add_mset_insert)
    with True Cons show ?thesis
      by (auto simp: after_iff jslt_jsge)
  next
    case False
    then have xy: "jsge (total_crvusd_value x) (total_crvusd_value y)"
      using Cons.prems by (simp add: not_jslt_jsge)
    have "jsge (total_crvusd_value x) (total_crvusd_value z)" if "z \<in> set ys" for z
      using xy Cons.prems(1) that jsge_trans by auto
    with False xy Cons.prems(1) show ?thesis
      by (auto simp: after_iff)
  qed
qed

lemma sorted_array_sort:
  assumes "\<forall>y\<in>set xs. total_crvusd_value y \<noteq> NaN"
  shows "sorted_wrt (\<lambda>a b. jsge (total_crvusd_value a) (total_crvusd_value b))
           (array_sort by_value_desc xs)"
  using assms
  by (induction xs) (simp_all add: array_sort_Nil array_sort_Cons sorted_sort_insert set_array_sort)

text \<open>
  A list of two or more values with a \<open>NaN\<close> among them is not ordered, in
  whatever order its elements stand: \<open>NaN\<close> is neither above nor below anything.
\<close>

lemma nan_never_ordered:
  assumes "NaN \<in> set vs" and "2 \<le> length vs"
  shows "\<not> non_increasing vs"
proof
  assume "non_increasing vs"
  then have ord: "jsge (vs ! i) (vs ! j)" if "i < j" "j < length vs" for i j
    using that by (simp add: non_increasing_def sorted_wrt_iff_nth_less)
  from assms(1) obtain i where i: "i < length vs" "vs ! i = NaN"
    by (auto simp: in_set_conv_nth)
  show False
  proof (cases "i = 0")
    case True
    then have "jsge (vs ! 0) (vs ! 1)"
      using assms(2) by (intro ord) simp_all
    with True i show False
      by (cases "vs ! 1") (simp_all add: jsge_def)
  next
    case False
    then have "jsge (vs ! 0) (vs ! i)"
      using i by (intro ord) simp_all
    with i show False
      by (cases "vs ! 0") (simp_all add: jsge_def)
  qed
qed

lemma length_formattedLenders: "length (formattedLenders tf srt) = length srt"
  by (simp add: formattedLenders_def)

lemma nth_formattedLenders:
  "i < length srt \<Longrightarrow> formattedLenders tf srt ! i = format_lender tf (srt ! i) i"
  by (simp add: formattedLenders_def)

lemma rank_formattedLenders: "map rank (formattedLenders tf srt) = [1..<length srt + 1]"
  by (rule nth_equalityI) (simp_all add: formattedLenders_def format_lender_def nth_upt del: upt_Suc)

lemma lenders_merge_all_lenders:
  "lenders (merge_all_lenders tf now ld cd) = formattedLenders tf (sorted_records tf ld cd)"
  by (simp add: merge_all_lenders_def Let_def)

lemmas sort_eval =
  sorted_records_def compute_pct_def array_sort_def by_value_desc_def jssub_def jsgt_def
  jsge_def non_increasing_def

lemmas output_eval =
  lenders_merge_all_lenders formattedLenders_def format_lender_def format_position_def
  fmtShares_def fmtCrvusd_def no_format_def upt_conv_Cons

subsection \<open>The records of one identity\<close>

lemma filter_ingested_of:
  "filter (\<lambda>c. fst c = s) (ingested_of k ld cd) =
     map (Pair s) (filter (\<lambda>h. key_of h = k) (ingested s ld cd))"
  by (cases s) (simp_all add: ingested_of_def all_ingested_def filter_map comp_def del: ingested.simps)

lemma ingested_of_split:
  "ingested_of k ld cd =
     map (Pair Direct_vault) (filter (\<lambda>h. key_of h = k) (ingested Direct_vault ld cd))
     @ map (Pair Convex) (filter (\<lambda>h. key_of h = k) (ingested Convex ld cd))
     @ map (Pair Direct_gauge) (filter (\<lambda>h. key_of h = k) (ingested Direct_gauge ld cd))"
  by (simp add: ingested_of_def all_ingested_def filter_map comp_def del: ingested.simps)

lemma ingested_in_ingested_of:
  "h \<in> set (ingested s ld cd) \<Longrightarrow> (s, h) \<in> set (ingested_of (key_of h) ld cd)"
  by (cases s) (auto simp add: ingested_of_def all_ingested_def simp del: ingested.simps)

lemma record_of_ingested:
  assumes "ingested_of k ld cd \<noteq> []"
  shows "map_of (ingest_all ld cd) k =
           Some (foldl (accumulate (pricePerShare cd))
                   (blank_record (h_address (snd (hd (ingested_of k ld cd)))))
                   (ingested_of k ld cd))"
  using assms by (cases "ingested_of k ld cd") (simp_all add: map_of_ingest_all)

lemma record_has_ingested:
  assumes "map_of (ingest_all ld cd) k = Some r"
  shows "ingested_of k ld cd \<noteq> []"
  using assms by (auto simp: map_of_ingest_all)

lemma key_of_hd_ingested_of:
  "ingested_of k ld cd \<noteq> [] \<Longrightarrow> key_of (snd (hd (ingested_of k ld cd))) = k"
proof -
  assume "ingested_of k ld cd \<noteq> []"
  then have "hd (ingested_of k ld cd) \<in> set (ingested_of k ld cd)" by simp
  then show ?thesis unfolding ingested_of_def by simp
qed

lemma count_list_distinct: "distinct xs \<Longrightarrow> x \<in> set xs \<Longrightarrow> count_list xs x = 1"
  by (induction xs) (auto simp: count_list_0_iff)

lemma blank_simps:
  "address (blank_record a) = a" "total_shares (blank_record a) = Num 0"
  "total_crvusd_value (blank_record a) = Num 0" "sources (blank_record a) = []"
  "slot s (blank_record a) = None"
  by (cases s; simp add: blank_record_def)+

lemma filter_key_distinct:
  "distinct (map f xs) \<Longrightarrow> filter (\<lambda>x. f x = k) xs = [] \<or> (\<exists>x. filter (\<lambda>x. f x = k) xs = [x])"
proof (induction xs)
  case Nil
  show ?case by simp
next
  case (Cons x xs)
  show ?case
  proof (cases "f x = k")
    case True
    with Cons.prems have "filter (\<lambda>x. f x = k) xs = []"
      by (auto simp: filter_empty_conv image_iff)
    with True show ?thesis by simp
  next
    case False
    with Cons show ?thesis by simp
  qed
qed

lemma at_most_one: "length xs \<le> 1 \<Longrightarrow> xs = [] \<or> (\<exists>x. xs = [x])"
  by (cases xs) auto

lemma conservation_identity:
  assumes one: "\<And>s. filter (\<lambda>h. key_of h = k) (ingested s ld cd) = []
                     \<or> (\<exists>x. filter (\<lambda>h. key_of h = k) (ingested s ld cd) = [x])"
    and r: "map_of (ingest_all ld cd) k = Some r"
  shows "total_shares r = running_sum (map shares (present_positions r))
       \<and> total_crvusd_value r = running_sum (map crvusd_value (present_positions r))"
proof -
  let ?p = "pricePerShare cd"
  have ne: "ingested_of k ld cd \<noteq> []"
    using r by (rule record_has_ingested)
  have r': "r = foldl (accumulate ?p) (blank_record (h_address (snd (hd (ingested_of k ld cd)))))
                  (ingested_of k ld cd)"
    using record_of_ingested [OF ne] r by simp
  show ?thesis
    using one [of Direct_vault] one [of Convex] one [of Direct_gauge] ne
    unfolding r' ingested_of_split
    by (auto simp: accumulate_def blank_record_def present_positions_def List.map_filter_def
        running_sum_def position_of_def Let_def simp del: ingested.simps)
qed

lemma conservation_record:
  assumes d: "\<And>s. distinct (map key_of (ingested s ld cd))"
    and r: "map_of (ingest_all ld cd) k = Some r"
  shows "total_shares r = running_sum (map shares (present_positions r))
       \<and> total_crvusd_value r = running_sum (map crvusd_value (present_positions r))"
proof (rule conservation_identity [OF _ r])
  fix s
  show "filter (\<lambda>h. key_of h = k) (ingested s ld cd) = []
        \<or> (\<exists>x. filter (\<lambda>h. key_of h = k) (ingested s ld cd) = [x])"
    using d [of s] by (rule filter_key_distinct)
qed

subsection \<open>From the map to the output\<close>

lemma set_sorted_records:
  "set (sorted_records tf ld cd) =
     (\<lambda>(k, r). r\<lparr>pct_of_vault :=
                    tf (jsmul (jsdiv (total_shares r) (totalVaultShares cd)) (Num 100)) 2\<rparr>)
       ` set (ingest_all ld cd)"
  by (simp add: sorted_records_def set_array_sort compute_pct_def image_image case_prod_beta)

lemma map_of_ingest_all_iff:
  "(map_of (ingest_all ld cd) k = Some r) = ((k, r) \<in> set (ingest_all ld cd))"
  by (rule map_of_eq_Some_iff) (rule distinct_keys_ingest_all)

lemma sorted_record_cases:
  assumes "r \<in> set (sorted_records tf ld cd)"
  obtains k r0 where "map_of (ingest_all ld cd) k = Some r0"
    and "r = r0\<lparr>pct_of_vault :=
                   tf (jsmul (jsdiv (total_shares r0) (totalVaultShares cd)) (Num 100)) 2\<rparr>"
  using assms unfolding set_sorted_records by (auto simp: map_of_ingest_all_iff)

lemma sorted_record_of:
  assumes "map_of (ingest_all ld cd) k = Some r0"
  shows "r0\<lparr>pct_of_vault :=
              tf (jsmul (jsdiv (total_shares r0) (totalVaultShares cd)) (Num 100)) 2\<rparr>
           \<in> set (sorted_records tf ld cd)"
  using assms unfolding set_sorted_records by (force simp: map_of_ingest_all_iff)

lemma slot_pct [simp]: "slot s (r\<lparr>pct_of_vault := x\<rparr>) = slot s r"
  by (cases s) simp_all

lemma present_positions_pct [simp]:
  "present_positions (r\<lparr>pct_of_vault := x\<rparr>) = present_positions r"
  by (simp add: present_positions_def List.map_filter_def)

lemma single_entry:
  "distinct (map fst m) \<Longrightarrow> map_of m k = Some r \<Longrightarrow> filter (\<lambda>e. fst e = k) m = [(k, r)]"
proof (induction m)
  case Nil
  then show ?case by simp
next
  case (Cons e m)
  show ?case
  proof (cases "fst e = k")
    case True
    with Cons.prems have "e = (k, r)" by (cases e) simp
    moreover have "filter (\<lambda>e. fst e = k) m = []"
      using Cons.prems(1) True by (auto simp: filter_empty_conv image_iff)
    ultimately show ?thesis by simp
  next
    case False
    with Cons show ?thesis by (cases e) simp
  qed
qed

lemma key_of_record:
  assumes "map_of (ingest_all ld cd) k = Some r"
  shows "toLowerCase (address r) = k"
proof -
  have ne: "ingested_of k ld cd \<noteq> []"
    using assms by (rule record_has_ingested)
  have "address r = h_address (snd (hd (ingested_of k ld cd)))"
    using record_of_ingested [OF ne] assms by (auto simp: address_accumulate blank_simps)
  then show ?thesis
    using key_of_hd_ingested_of [OF ne] by (simp add: key_of_def)
qed


lemma slot_of_ingested_record:
  assumes "h \<in> set (ingested s ld cd)"
  shows "\<exists>r. map_of (ingest_all ld cd) (key_of h) = Some r
           \<and> slot s r =
               Some (position_of (pricePerShare cd)
                       (last (filter (\<lambda>h'. key_of h' = key_of h) (ingested s ld cd))))
           \<and> source_name s \<in> set (sources r)"
proof -
  let ?k = "key_of h" and ?p = "pricePerShare cd"
  let ?cs = "ingested_of ?k ld cd"
  let ?r = "foldl (accumulate ?p) (blank_record (h_address (snd (hd ?cs)))) ?cs"
  have mem: "(s, h) \<in> set ?cs"
    using assms by (rule ingested_in_ingested_of)
  then have ne: "?cs \<noteq> []" by auto
  have r: "map_of (ingest_all ld cd) ?k = Some ?r"
    using ne by (rule record_of_ingested)
  have "h \<in> set (filter (\<lambda>h'. key_of h' = ?k) (ingested s ld cd))"
    using assms by simp
  then obtain y ys where
    ys: "filter (\<lambda>h'. key_of h' = ?k) (ingested s ld cd) = y # ys"
    by (cases "filter (\<lambda>h'. key_of h' = ?k) (ingested s ld cd)") auto
  have "slot s ?r = Some (position_of ?p
          (last (filter (\<lambda>h'. key_of h' = ?k) (ingested s ld cd))))"
    by (simp add: slot_accumulate filter_ingested_of ys last_map blank_simps del: ingested.simps)
  moreover have "source_name s \<in> set (sources ?r)"
    using mem by (force simp: set_sources_accumulate)
  ultimately show ?thesis using r by blast
qed

lemma no_excluded_direct:
  assumes "k \<in> EXCLUDED_CONTRACTS cd"
  shows "filter (\<lambda>c. fst c = Direct_vault) (ingested_of k ld cd) = []"
  using assms by (auto simp: filter_ingested_of filter_empty_conv)

lemma source_name_inj: "source_name s = source_name s' \<Longrightarrow> s = s'"
  by (cases s; cases s'; simp)

lemma excluded_record:
  assumes "map_of (ingest_all ld cd) k = Some r" and "k \<in> EXCLUDED_CONTRACTS cd"
  shows "direct_vault (positions r) = None \<and> ''direct_vault'' \<notin> set (sources r)"
proof -
  let ?cs = "ingested_of k ld cd"
  have ne: "?cs \<noteq> []"
    using assms(1) by (rule record_has_ingested)
  have r: "r = foldl (accumulate (pricePerShare cd)) (blank_record (h_address (snd (hd ?cs)))) ?cs"
    using record_of_ingested [OF ne] assms(1) by simp
  have none: "filter (\<lambda>c. fst c = Direct_vault) ?cs = []"
    using assms(2) by (rule no_excluded_direct)
  have "slot Direct_vault r = None"
    unfolding r by (simp add: slot_accumulate none blank_simps)
  moreover have "''direct_vault'' \<notin> set (sources r)"
  proof
    assume "''direct_vault'' \<in> set (sources r)"
    then obtain c where c: "c \<in> set ?cs" "source_name (fst c) = ''direct_vault''"
      unfolding r by (auto simp: set_sources_accumulate blank_simps)
    then have "fst c = Direct_vault"
      using source_name_inj [of "fst c" Direct_vault] by simp
    with c(1) have "c \<in> set (filter (\<lambda>c. fst c = Direct_vault) ?cs)" by simp
    with none show False by simp
  qed
  ultimately show ?thesis by simp
qed

lemma lender_cases:
  assumes "fl \<in> set (lenders (merge_all_lenders tf now ld cd))"
  obtains r i where "r \<in> set (sorted_records tf ld cd)" and "fl = format_lender tf r i"
  using assms
  by (auto simp: lenders_merge_all_lenders formattedLenders_def dest: set_zip_leftD)

lemma lender_of_record:
  assumes "r \<in> set (sorted_records tf ld cd)"
  shows "\<exists>i. format_lender tf r i \<in> set (lenders (merge_all_lenders tf now ld cd))"
proof -
  from assms obtain i where i: "i < length (sorted_records tf ld cd)"
    and r: "sorted_records tf ld cd ! i = r"
    by (auto simp: in_set_conv_nth)
  have "formattedLenders tf (sorted_records tf ld cd) ! i
          \<in> set (formattedLenders tf (sorted_records tf ld cd))"
    using i by (intro nth_mem) (simp add: length_formattedLenders)
  then show ?thesis
    using i r by (auto simp: lenders_merge_all_lenders nth_formattedLenders)
qed

lemma jsgt_zero_not_skipped: "jsgt n (Num 0) \<Longrightarrow> \<not> jsle n (Num 0)"
  by (cases n) (simp_all add: jsgt_def)

subsection \<open>Sums with a \<open>NaN\<close> summand\<close>




section \<open>The position merger\<close>

subsection \<open>Dust filtering\<close>

text \<open>
  Claim C6. A record of any of the three input sequences whose parsed shares are
  zero or negative is skipped at ingestion: the whole output of the script is the
  output for the input without that record, so the record gives no position, no
  merged record and no share of any total.
\<close>

theorem dust_filtering:
  assumes "zero_or_negative (parseFloat (h_shares h))"
  shows "merge_all_lenders toFixed now (lenderData\<lparr>holders := xs @ h # ys\<rparr>) convexData =
         merge_all_lenders toFixed now (lenderData\<lparr>holders := xs @ ys\<rparr>) convexData
       \<and> merge_all_lenders toFixed now lenderData (convexData\<lparr>convex_active_holders := xs @ h # ys\<rparr>) =
         merge_all_lenders toFixed now lenderData (convexData\<lparr>convex_active_holders := xs @ ys\<rparr>)
       \<and> merge_all_lenders toFixed now lenderData (convexData\<lparr>direct_gauge_stakers := xs @ h # ys\<rparr>) =
         merge_all_lenders toFixed now lenderData (convexData\<lparr>direct_gauge_stakers := xs @ ys\<rparr>)"
proof -
  have skip: "jsle (parseFloat (h_shares h)) (Num 0)"
    using assms by (simp add: jsle_zero_or_negative)
  have d: "ingest_direct_holder ex price m h = m" for ex price m
    using skip by (simp add: ingest_direct_holder_def)
  have c: "ingest_convex_holder price m h = m" for price m
    using skip by (simp add: ingest_convex_holder_def)
  have g: "ingest_gauge_staker price m h = m" for price m
    using skip by (simp add: ingest_gauge_staker_def)
  have i1: "ingest_all (lenderData\<lparr>holders := xs @ h # ys\<rparr>) convexData =
            ingest_all (lenderData\<lparr>holders := xs @ ys\<rparr>) convexData"
    by (simp add: ingest_all_def d)
  have i2: "ingest_all lenderData (convexData\<lparr>convex_active_holders := xs @ h # ys\<rparr>) =
            ingest_all lenderData (convexData\<lparr>convex_active_holders := xs @ ys\<rparr>)"
    by (simp add: ingest_all_def c pricePerShare_def EXCLUDED_CONTRACTS_def)
  have i3: "ingest_all lenderData (convexData\<lparr>direct_gauge_stakers := xs @ h # ys\<rparr>) =
            ingest_all lenderData (convexData\<lparr>direct_gauge_stakers := xs @ ys\<rparr>)"
    by (simp add: ingest_all_def g pricePerShare_def EXCLUDED_CONTRACTS_def)
  show ?thesis
    by (simp add: merge_all_lenders_def sorted_records_def i1 i2 i3 totalVaultShares_def)
qed

text \<open>
  An instance: the Convex entry \<open>0xBB\<close> with shares \<open>-3.5\<close> leaves no trace, and
  the map has the two other addresses only.
\<close>

theorem dust_filtering_witness:
  "zero_or_negative (parseFloat ''-3.5'')
   \<and> ingest_all (example_lender_data [entry ''0xAA'' ''100''])
        (example_convex_data [entry ''0xBB'' ''-3.5'', entry ''0xCC'' ''7''] [])
     = ingest_all (example_lender_data [entry ''0xAA'' ''100''])
        (example_convex_data [entry ''0xCC'' ''7''] [])
   \<and> map fst (ingest_all (example_lender_data [entry ''0xAA'' ''100''])
        (example_convex_data [entry ''0xBB'' ''-3.5'', entry ''0xCC'' ''7''] [])) = [''0xaa'', ''0xcc'']
   \<and> merge_all_lenders no_format ''t'' (example_lender_data [entry ''0xAA'' ''100''])
        (example_convex_data [entry ''0xBB'' ''-3.5'', entry ''0xCC'' ''7''] [])
     = merge_all_lenders no_format ''t'' (example_lender_data [entry ''0xAA'' ''100''])
        (example_convex_data [entry ''0xCC'' ''7''] [])"
proof -
  have z: "zero_or_negative (parseFloat (h_shares (entry ''0xBB'' ''-3.5'')))"
    by (simp add: entry_def parse_eval)
  have "merge_all_lenders no_format ''t'' (example_lender_data [entry ''0xAA'' ''100''])
          (example_convex_data [entry ''0xBB'' ''-3.5'', entry ''0xCC'' ''7''] [])
        = merge_all_lenders no_format ''t'' (example_lender_data [entry ''0xAA'' ''100''])
          (example_convex_data [entry ''0xCC'' ''7''] [])"
    using dust_filtering [OF z, where toFixed = no_format and now = "''t''"
        and lenderData = "example_lender_data [entry ''0xAA'' ''100'']"
        and convexData = "example_convex_data [] []" and xs = "[]" and ys = "[entry ''0xCC'' ''7'']"]
    by (simp add: example_convex_data_def)
  moreover have "zero_or_negative (parseFloat ''-3.5'')"
    by (simp add: parse_eval)
  moreover have "map fst (ingest_all (example_lender_data [entry ''0xAA'' ''100''])
        (example_convex_data [entry ''0xBB'' ''-3.5'', entry ''0xCC'' ''7''] [])) = [''0xaa'', ''0xcc'']"
    by (simp add: merge_eval parse_eval)
  moreover have "ingest_all (example_lender_data [entry ''0xAA'' ''100''])
        (example_convex_data [entry ''0xBB'' ''-3.5'', entry ''0xCC'' ''7''] [])
     = ingest_all (example_lender_data [entry ''0xAA'' ''100''])
        (example_convex_data [entry ''0xCC'' ''7''] [])"
    by (simp add: merge_eval parse_eval)
  ultimately show ?thesis by simp
qed

subsection \<open>Sort order and ranks\<close>

text \<open>
  Claim C3, as amended. Whenever no merged record has the total value \<open>NaN\<close>,
  so that the comparator is a consistent order: the sorted records are
  non-increasing in total value, and records of equal total value stand in the
  order in which the map holds them, which is the order of first insertion
  (\<open>insertion_order\<close>). For every input: the sorted list is a permutation of
  the map's records, and the output \<^verbatim>\<open>lenders\<close> is the sorted list formatted
  entry by entry, with the ranks \<open>1..N\<close> in array order. Nothing is said about
  the order of the records when some total value is \<open>NaN\<close>.
\<close>

theorem sorted_stable_ranked:
  "((\<forall>r\<in>set (sorted_records toFixed lenderData convexData). total_crvusd_value r \<noteq> NaN) \<longrightarrow>
      non_increasing (map total_crvusd_value (sorted_records toFixed lenderData convexData))
      \<and> (\<forall>v. filter (\<lambda>r. total_crvusd_value r = v)
                (sorted_records toFixed lenderData convexData) =
              filter (\<lambda>r. total_crvusd_value r = v)
                (map snd (compute_pct toFixed (totalVaultShares convexData)
                            (ingest_all lenderData convexData)))))
   \<and> mset (sorted_records toFixed lenderData convexData) =
       mset (map snd (compute_pct toFixed (totalVaultShares convexData)
                        (ingest_all lenderData convexData)))
   \<and> length (lenders (merge_all_lenders toFixed now lenderData convexData)) =
       length (sorted_records toFixed lenderData convexData)
   \<and> map rank (lenders (merge_all_lenders toFixed now lenderData convexData)) =
       [1..<length (sorted_records toFixed lenderData convexData) + 1]
   \<and> (\<forall>i<length (sorted_records toFixed lenderData convexData).
         lenders (merge_all_lenders toFixed now lenderData convexData) ! i =
           format_lender toFixed (sorted_records toFixed lenderData convexData ! i) i)"
proof -
  let ?vals = "map snd (compute_pct toFixed (totalVaultShares convexData)
                          (ingest_all lenderData convexData))"
  have srt: "sorted_records toFixed lenderData convexData = array_sort by_value_desc ?vals"
    by (simp add: sorted_records_def)
  have ordered:
    "non_increasing (map total_crvusd_value (sorted_records toFixed lenderData convexData))"
    if "\<forall>r\<in>set (sorted_records toFixed lenderData convexData). total_crvusd_value r \<noteq> NaN"
  proof -
    have "\<forall>r\<in>set ?vals. total_crvusd_value r \<noteq> NaN"
      using that unfolding srt set_array_sort .
    then have "sorted_wrt (\<lambda>a b. jsge (total_crvusd_value a) (total_crvusd_value b))
                 (array_sort by_value_desc ?vals)"
      by (rule sorted_array_sort)
    then show ?thesis
      by (simp add: non_increasing_def srt sorted_wrt_map)
  qed
  have stable:
    "filter (\<lambda>r. total_crvusd_value r = v) (sorted_records toFixed lenderData convexData) =
     filter (\<lambda>r. total_crvusd_value r = v) ?vals" for v
    unfolding srt by (rule filter_array_sort)
  have perm: "mset (sorted_records toFixed lenderData convexData) = mset ?vals"
    unfolding srt by (rule mset_array_sort)
  show ?thesis
    using ordered stable perm
    by (simp add: lenders_merge_all_lenders length_formattedLenders rank_formattedLenders
        nth_formattedLenders)
qed

text \<open>
  An instance with a tie: the values are \<open>2\<close>, \<open>6\<close>, \<open>2\<close> in insertion order;
  \<open>0xB2\<close> comes first and the two records of value \<open>2\<close> keep their order.
\<close>

theorem sorted_stable_ranked_witness:
  "map address (sorted_records no_format (example_lender_data []) tie_example) =
       [''0xB2'', ''0xA1'', ''0xC3'']
   \<and> map total_crvusd_value (sorted_records no_format (example_lender_data []) tie_example) =
       [Num 6, Num 2, Num 2]
   \<and> non_increasing
       (map total_crvusd_value (sorted_records no_format (example_lender_data []) tie_example))
   \<and> filter (\<lambda>r. total_crvusd_value r = Num 2)
        (sorted_records no_format (example_lender_data []) tie_example) =
       filter (\<lambda>r. total_crvusd_value r = Num 2)
         (map snd (compute_pct no_format (totalVaultShares tie_example)
                     (ingest_all (example_lender_data []) tie_example)))
   \<and> map rank (lenders (merge_all_lenders no_format ''now'' (example_lender_data []) tie_example)) =
       [1, 2, 3]"
proof -
  have vals: "map total_crvusd_value (sorted_records no_format (example_lender_data []) tie_example)
              = [Num 6, Num 2, Num 2]"
    by (simp add: sort_eval merge_eval parse_eval no_format_def)
  have addrs: "map address (sorted_records no_format (example_lender_data []) tie_example)
               = [''0xB2'', ''0xA1'', ''0xC3'']"
    by (simp add: sort_eval merge_eval parse_eval no_format_def)
  have len: "length (sorted_records no_format (example_lender_data []) tie_example) = 3"
    using arg_cong [OF vals, of length] by simp
  have "\<forall>v\<in>set (map total_crvusd_value
                    (sorted_records no_format (example_lender_data []) tie_example)). v \<noteq> NaN"
    unfolding vals by simp
  then have hyp: "\<forall>r\<in>set (sorted_records no_format (example_lender_data []) tie_example).
                    total_crvusd_value r \<noteq> NaN"
    by simp
  have upt: "[Suc 0..<4] = [Suc 0, 2, 3]"
    by (simp add: upt_conv_Cons)
  show ?thesis
    using sorted_stable_ranked [where toFixed = no_format and now = "''now''"
        and lenderData = "example_lender_data []" and convexData = tie_example] hyp vals addrs
    by (simp add: len upt del: upt_Suc)
qed

text \<open>
  The claim as stated, for every input, fails when a shares field does not
  parse: its record has the value \<open>NaN\<close>, every comparison with it counts as a
  tie, and the output order has \<open>2\<close> before \<open>4\<close> with the \<open>NaN\<close> record between.
  By \<open>nan_never_ordered\<close> no other arrangement of these three records is
  ordered either.
\<close>

theorem sorted_counterexample:
  "map total_crvusd_value (sorted_records no_format (example_lender_data []) unparsable_example) =
     [Num 2, NaN, Num 4]
   \<and> \<not> non_increasing
         (map total_crvusd_value
            (sorted_records no_format (example_lender_data []) unparsable_example))
   \<and> \<not> non_increasing [Num 2, Num 4]"
proof -
  have vals: "map total_crvusd_value
                (sorted_records no_format (example_lender_data []) unparsable_example) =
              [Num 2, NaN, Num 4]"
    by (simp add: sort_eval merge_eval parse_eval no_format_def)
  show ?thesis
    unfolding vals by (simp add: non_increasing_def jsge_def)
qed

subsection \<open>One address twice in one sequence\<close>

text \<open>
  Claim C9, as amended. Take any record \<open>h\<close> that is ingested from sequence
  \<open>s\<close>: its shares are not skipped as \<open>\<le> 0\<close>, as when they are positive, and in
  the first sequence its address is not excluded. The merged record of its
  case-insensitive identity then holds, in the slot of \<open>s\<close>, the position of the
  last ingested record of that identity in that sequence: a second record
  replaces the position of the first. The running totals are the sums over all
  ingested records of that identity, so they count the first and the second
  record alike. The category of \<open>s\<close> occurs exactly once in \<^verbatim>\<open>sources\<close>.
\<close>

theorem duplicate_within_sequence:
  assumes "h \<in> set (ingested s lenderData convexData)"
  shows "\<exists>r. map_of (ingest_all lenderData convexData) (key_of h) = Some r
          \<and> slot s r =
              Some (position_of (pricePerShare convexData)
                      (last (filter (\<lambda>h'. key_of h' = key_of h) (ingested s lenderData convexData))))
          \<and> total_shares r =
              running_sum (map (\<lambda>c. parsed_shares (snd c))
                             (ingested_of (key_of h) lenderData convexData))
          \<and> total_crvusd_value r =
              running_sum (map (\<lambda>c. jsmul (parsed_shares (snd c)) (pricePerShare convexData))
                             (ingested_of (key_of h) lenderData convexData))
          \<and> count_list (sources r) (source_name s) = 1"
proof -
  let ?k = "key_of h" and ?p = "pricePerShare convexData"
  let ?cs = "ingested_of ?k lenderData convexData"
  let ?r = "foldl (accumulate ?p) (blank_record (h_address (snd (hd ?cs)))) ?cs"
  have mem: "(s, h) \<in> set ?cs"
    using assms by (rule ingested_in_ingested_of)
  then have ne: "?cs \<noteq> []" by auto
  have r: "map_of (ingest_all lenderData convexData) ?k = Some ?r"
    using ne by (rule record_of_ingested)
  have "h \<in> set (filter (\<lambda>h'. key_of h' = ?k) (ingested s lenderData convexData))"
    using assms by simp
  then obtain y ys where
    ys: "filter (\<lambda>h'. key_of h' = ?k) (ingested s lenderData convexData) = y # ys"
    by (cases "filter (\<lambda>h'. key_of h' = ?k) (ingested s lenderData convexData)") auto
  have "slot s ?r = Some (position_of ?p
          (last (filter (\<lambda>h'. key_of h' = ?k) (ingested s lenderData convexData))))"
    by (simp add: slot_accumulate filter_ingested_of ys last_map blank_simps del: ingested.simps)
  moreover have "total_shares ?r = running_sum (map (\<lambda>c. parsed_shares (snd c)) ?cs)"
    by (simp add: total_shares_accumulate running_sum_def blank_simps)
  moreover have "total_crvusd_value ?r =
                   running_sum (map (\<lambda>c. jsmul (parsed_shares (snd c)) ?p) ?cs)"
    by (simp add: total_value_accumulate running_sum_def blank_simps)
  moreover have "count_list (sources ?r) (source_name s) = 1"
  proof (rule count_list_distinct)
    show "distinct (sources ?r)"
      by (rule distinct_sources_accumulate) (simp add: blank_simps)
    show "source_name s \<in> set (sources ?r)"
      using mem by (force simp: set_sources_accumulate)
  qed
  ultimately show ?thesis using r by blast
qed

text \<open>
  An instance: \<open>0xA1\<close> with \<open>1\<close> share and \<open>0xa1\<close> with \<open>2\<close> shares among the
  Convex depositors. The position is the second one, the totals are \<open>3\<close> shares
  and the value \<open>6\<close>.
\<close>

theorem duplicate_within_sequence_witness:
  "entry ''0xA1'' ''1'' \<in> set (ingested Convex (example_lender_data []) duplicate_example)
   \<and> (\<exists>r. map_of (ingest_all (example_lender_data []) duplicate_example) ''0xa1'' = Some r
          \<and> convex (positions r) = Some \<lparr>shares = Num 2, crvusd_value = Num 4\<rparr>
          \<and> total_shares r = Num 3
          \<and> total_crvusd_value r = Num 6
          \<and> count_list (sources r) ''convex'' = 1)"
proof -
  have mem: "entry ''0xA1'' ''1'' \<in> set (ingested Convex (example_lender_data []) duplicate_example)"
    by (simp add: merge_eval vocabulary_eval parse_eval)
  show ?thesis
    using duplicate_within_sequence [OF mem] mem
    by (simp add: merge_eval vocabulary_eval parse_eval)
qed

text \<open>
  The claim as stated, for each of the three sequences, fails in the first one
  for an excluded address: the gauge \<open>0xE1\<close> twice among the direct holders, with
  positive shares both times, gives no position, no totals and no record.
\<close>

theorem duplicate_within_sequence_counterexample:
  "jsgt (parseFloat ''1'') (Num 0)
   \<and> jsgt (parseFloat ''2'') (Num 0)
   \<and> toLowerCase ''0xE1'' = toLowerCase ''0xe1''
   \<and> ingest_all (example_lender_data [entry ''0xE1'' ''1'', entry ''0xe1'' ''2''])
        (example_convex_data [] []) = []"
  by (simp add: merge_eval parse_eval jsgt_def)

subsection \<open>Conservation\<close>

text \<open>
  The script's description of a record says that \<^verbatim>\<open>total_shares\<close> is the sum of
  all position shares and \<^verbatim>\<open>total_crvusd_value\<close> the sum of all position values.
  That holds of every merged record when no case-insensitive identity is
  ingested more than once from the same input sequence, the sums taken from \<open>0\<close>
  in the order direct vault, Convex, direct gauge.
\<close>

lemma conservation_without_duplicates:
  assumes "\<forall>s. distinct (map key_of (ingested s lenderData convexData))"
    and "r \<in> set (sorted_records toFixed lenderData convexData)"
  shows "total_shares r = running_sum (map shares (present_positions r))
       \<and> total_crvusd_value r = running_sum (map crvusd_value (present_positions r))"
proof -
  from assms(2) obtain k r0 where
    r0: "map_of (ingest_all lenderData convexData) k = Some r0"
    and r: "r = r0\<lparr>pct_of_vault :=
                toFixed (jsmul (jsdiv (total_shares r0) (totalVaultShares convexData)) (Num 100)) 2\<rparr>"
    by (rule sorted_record_cases)
  have "total_shares r0 = running_sum (map shares (present_positions r0))
      \<and> total_crvusd_value r0 = running_sum (map crvusd_value (present_positions r0))"
    using assms(1) r0 by (intro conservation_record) simp_all
  then show ?thesis by (simp add: r)
qed

text \<open>
  Claim C2. The claim asks for the same equalities on every input, inputs with
  an address twice in one sequence among them, and there the script breaks them:
  each loop assigns the position of its category and adds to the totals, so for
  \<open>0xA1\<close> with \<open>1\<close> share and \<open>0xa1\<close> with \<open>2\<close> shares among the Convex
  depositors the one merged record has \<^verbatim>\<open>total_shares\<close> \<open>3\<close> over positions
  whose shares sum to \<open>2\<close>, and \<^verbatim>\<open>total_crvusd_value\<close> \<open>6\<close> over positions whose
  values sum to \<open>4\<close>.
\<close>

theorem conservation_broken_by_duplicate:
  "map total_shares (sorted_records no_format (example_lender_data []) duplicate_example) = [Num 3]
   \<and> map (running_sum \<circ> map shares \<circ> present_positions)
        (sorted_records no_format (example_lender_data []) duplicate_example) = [Num 2]
   \<and> map total_crvusd_value (sorted_records no_format (example_lender_data []) duplicate_example)
       = [Num 6]
   \<and> map (running_sum \<circ> map crvusd_value \<circ> present_positions)
        (sorted_records no_format (example_lender_data []) duplicate_example) = [Num 4]"
  by (simp add: sort_eval merge_eval vocabulary_eval parse_eval no_format_def)

subsection \<open>Case-insensitive identity\<close>

text \<open>
  Claim C5, as amended. Take two ingested records, from any of the sequences,
  whose addresses have the same lower-cased form, in an input where no sequence
  has two ingested records of that identity. The map then has exactly one record
  under the identity; its display address is the address of the first ingested
  record of the identity; the slots of the two records' categories hold the
  positions of the two records; and its totals are the sums over the positions
  it holds. Records that are not ingested (skipped for their shares, or as
  excluded direct holders) and inputs where a sequence has the identity twice
  are left out of the statement.
\<close>

theorem case_insensitive_identity:
  assumes "h1 \<in> set (ingested s1 lenderData convexData)"
    and "h2 \<in> set (ingested s2 lenderData convexData)"
    and "toLowerCase (h_address h1) = toLowerCase (h_address h2)"
    and "\<forall>s. length (filter (\<lambda>h. key_of h = key_of h1) (ingested s lenderData convexData)) \<le> 1"
  shows "\<exists>r. filter (\<lambda>e. fst e = toLowerCase (h_address h1)) (ingest_all lenderData convexData) =
               [(toLowerCase (h_address h1), r)]
          \<and> address r =
              h_address (snd (hd (ingested_of (toLowerCase (h_address h1)) lenderData convexData)))
          \<and> slot s1 r = Some (position_of (pricePerShare convexData) h1)
          \<and> slot s2 r = Some (position_of (pricePerShare convexData) h2)
          \<and> total_shares r = running_sum (map shares (present_positions r))
          \<and> total_crvusd_value r = running_sum (map crvusd_value (present_positions r))"
proof -
  let ?k = "toLowerCase (h_address h1)" and ?p = "pricePerShare convexData"
  let ?cs = "ingested_of ?k lenderData convexData"
  let ?r = "foldl (accumulate ?p) (blank_record (h_address (snd (hd ?cs)))) ?cs"
  have k1: "key_of h1 = ?k" and k2: "key_of h2 = ?k"
    using assms(3) by (simp_all add: key_of_def)
  have m1: "(s1, h1) \<in> set ?cs"
    using ingested_in_ingested_of [OF assms(1)] by (simp add: k1)
  from m1 have ne: "?cs \<noteq> []" by auto
  have r: "map_of (ingest_all lenderData convexData) ?k = Some ?r"
    using ne by (rule record_of_ingested)
  have single: "filter (\<lambda>e. fst e = ?k) (ingest_all lenderData convexData) = [(?k, ?r)]"
    using distinct_keys_ingest_all r by (rule single_entry)
  have one: "filter (\<lambda>h. key_of h = ?k) (ingested s lenderData convexData) = []
             \<or> (\<exists>x. filter (\<lambda>h. key_of h = ?k) (ingested s lenderData convexData) = [x])" for s
  proof (rule at_most_one)
    show "length (filter (\<lambda>h. key_of h = ?k) (ingested s lenderData convexData)) \<le> 1"
      using assms(4) by (simp add: k1 del: ingested.simps)
  qed
  have only: "filter (\<lambda>h'. key_of h' = ?k) (ingested s lenderData convexData) = [h]"
    if "h \<in> set (ingested s lenderData convexData)" "key_of h = ?k" for s h
  proof -
    let ?hs = "filter (\<lambda>h'. key_of h' = ?k) (ingested s lenderData convexData)"
    have mem: "h \<in> set ?hs"
      using that by simp
    have "False" if e: "?hs = []"
      using mem unfolding e by simp
    moreover have "?hs = [h]" if e: "?hs = [x]" for x
    proof -
      have "x = h" using mem unfolding e by simp
      with e show ?thesis by simp
    qed
    ultimately show ?thesis using one [of s] by blast
  qed
  have slot_of: "slot s ?r = Some (position_of ?p h)"
    if "h \<in> set (ingested s lenderData convexData)" "key_of h = ?k" for s h
    by (simp add: slot_accumulate filter_ingested_of only [OF that] blank_simps
        del: ingested.simps)
  have addr: "address ?r = h_address (snd (hd ?cs))"
    by (simp add: address_accumulate blank_simps)
  have sums: "total_shares ?r = running_sum (map shares (present_positions ?r))
            \<and> total_crvusd_value ?r = running_sum (map crvusd_value (present_positions ?r))"
    by (rule conservation_identity [OF one r])
  show ?thesis
    using single addr slot_of [OF assms(1) k1] slot_of [OF assms(2) k2] sums
    by simp
qed

text \<open>
  An instance, the scenario of the specification: \<open>0xAAA\<close> as a direct holder
  and \<open>0xaaa\<close> as a Convex depositor give one record, shown as \<open>0xAAA\<close>, with
  both positions.
\<close>

theorem case_insensitive_identity_witness:
  "entry ''0xAAA'' ''100'' \<in> set (ingested Direct_vault scenario_lender_data scenario_convex_data)
   \<and> entry ''0xaaa'' ''50'' \<in> set (ingested Convex scenario_lender_data scenario_convex_data)
   \<and> toLowerCase ''0xAAA'' = toLowerCase ''0xaaa''
   \<and> (\<exists>r. ingest_all scenario_lender_data scenario_convex_data = [(''0xaaa'', r)]
         \<and> address r = ''0xAAA''
         \<and> total_shares r = Num 150
         \<and> total_crvusd_value r = Num 300
         \<and> direct_vault (positions r) = Some \<lparr>shares = Num 100, crvusd_value = Num 200\<rparr>
         \<and> convex (positions r) = Some \<lparr>shares = Num 50, crvusd_value = Num 100\<rparr>)"
proof -
  have m1: "entry ''0xAAA'' ''100'' \<in> set (ingested Direct_vault scenario_lender_data scenario_convex_data)"
    by (simp add: merge_eval vocabulary_eval parse_eval)
  have m2: "entry ''0xaaa'' ''50'' \<in> set (ingested Convex scenario_lender_data scenario_convex_data)"
    by (simp add: merge_eval vocabulary_eval parse_eval)
  have eq: "toLowerCase (h_address (entry ''0xAAA'' ''100'')) = toLowerCase (h_address (entry ''0xaaa'' ''50''))"
    by (simp add: entry_def parse_eval)
  have keys: "map fst (ingest_all scenario_lender_data scenario_convex_data) = [''0xaaa'']"
    by (simp add: merge_eval parse_eval)
  have once: "\<forall>s. length (filter (\<lambda>h. key_of h = key_of (entry ''0xAAA'' ''100''))
                              (ingested s scenario_lender_data scenario_convex_data)) \<le> 1"
  proof
    fix s
    show "length (filter (\<lambda>h. key_of h = key_of (entry ''0xAAA'' ''100''))
                    (ingested s scenario_lender_data scenario_convex_data)) \<le> 1"
      by (cases s) (simp_all add: merge_eval vocabulary_eval parse_eval)
  qed
  show ?thesis
    using case_insensitive_identity [OF m1 m2 eq once] m1 m2 keys
    by (simp add: merge_eval vocabulary_eval parse_eval)
qed

text \<open>
  The claim as stated, for every pair of input records, fails at the exclusion
  guard: the gauge \<open>0xE1\<close> as a direct holder with \<open>500\<close> shares and \<open>0xe1\<close> as a
  Convex depositor with \<open>7\<close> shares differ only in case, and the merged record
  holds the Convex position only, with \<open>7\<close> shares in total.
\<close>

theorem case_insensitive_identity_counterexample:
  "toLowerCase ''0xE1'' = toLowerCase ''0xe1''
   \<and> jsgt (parseFloat ''500'') (Num 0)
   \<and> jsgt (parseFloat ''7'') (Num 0)
   \<and> map fst (ingest_all (example_lender_data [entry ''0xE1'' ''500''])
                 (example_convex_data [entry ''0xe1'' ''7''] [])) = [''0xe1'']
   \<and> map (present_positions \<circ> snd)
        (ingest_all (example_lender_data [entry ''0xE1'' ''500''])
           (example_convex_data [entry ''0xe1'' ''7''] [])) =
       [ [\<lparr>shares = Num 7, crvusd_value = Num 14\<rparr>] ]
   \<and> map (total_shares \<circ> snd)
        (ingest_all (example_lender_data [entry ''0xE1'' ''500''])
           (example_convex_data [entry ''0xe1'' ''7''] [])) = [Num 7]"
  by (simp add: merge_eval vocabulary_eval parse_eval jsgt_def)

subsection \<open>Excluded infrastructure contracts\<close>

text \<open>
  Claim C4. In the output \<^verbatim>\<open>lenders\<close>, an entry whose address, lower-cased, is
  one of the excluded contracts has no \<^verbatim>\<open>direct_vault\<close> position and does not
  list \<^verbatim>\<open>direct_vault\<close> among its sources. The exclusion touches the first
  sequence only: for every Convex depositor and every direct gauge staker with
  positive shares, excluded address or not, there is a sorted record \<open>r\<close> of its
  case-insensitive identity, formatted into an output entry \<open>fl\<close>, that lists
  the category among its sources and holds in the category's slot the position
  built from the sequence's record of that identity (from the last one, should
  the sequence have several; from the record itself when it is the only one):
  its parsed shares and their value at the price per share. The output entry
  shows that position formatted.
\<close>

theorem exclusion:
  "(\<forall>fl\<in>set (lenders (merge_all_lenders toFixed now lenderData convexData)).
      toLowerCase (fl_address fl) \<in> EXCLUDED_CONTRACTS convexData \<longrightarrow>
      bd_direct_vault (fl_positions fl) = None \<and> ''direct_vault'' \<notin> set (fl_sources fl))
   \<and> (\<forall>h\<in>set (convex_active_holders convexData).
        jsgt (parseFloat (h_shares h)) (Num 0) \<longrightarrow>
        (\<exists>r i fl.
           r \<in> set (sorted_records toFixed lenderData convexData)
           \<and> fl = format_lender toFixed r i
           \<and> fl \<in> set (lenders (merge_all_lenders toFixed now lenderData convexData))
           \<and> toLowerCase (fl_address fl) = toLowerCase (h_address h)
           \<and> convex (positions r) =
               Some (position_of (pricePerShare convexData)
                       (last (filter (\<lambda>h'. key_of h' = key_of h)
                                (ingested Convex lenderData convexData))))
           \<and> bd_convex (fl_positions fl) =
               Some (format_position toFixed
                       (position_of (pricePerShare convexData)
                          (last (filter (\<lambda>h'. key_of h' = key_of h)
                                   (ingested Convex lenderData convexData)))))
           \<and> ''convex'' \<in> set (fl_sources fl)
           \<and> (filter (\<lambda>h'. key_of h' = key_of h) (ingested Convex lenderData convexData) = [h]
                \<longrightarrow> convex (positions r) = Some (position_of (pricePerShare convexData) h))))
   \<and> (\<forall>h\<in>set (direct_gauge_stakers convexData).
        jsgt (parseFloat (h_shares h)) (Num 0) \<longrightarrow>
        (\<exists>r i fl.
           r \<in> set (sorted_records toFixed lenderData convexData)
           \<and> fl = format_lender toFixed r i
           \<and> fl \<in> set (lenders (merge_all_lenders toFixed now lenderData convexData))
           \<and> toLowerCase (fl_address fl) = toLowerCase (h_address h)
           \<and> direct_gauge (positions r) =
               Some (position_of (pricePerShare convexData)
                       (last (filter (\<lambda>h'. key_of h' = key_of h)
                                (ingested Direct_gauge lenderData convexData))))
           \<and> bd_direct_gauge (fl_positions fl) =
               Some (format_position toFixed
                       (position_of (pricePerShare convexData)
                          (last (filter (\<lambda>h'. key_of h' = key_of h)
                                   (ingested Direct_gauge lenderData convexData)))))
           \<and> ''direct_gauge'' \<in> set (fl_sources fl)
           \<and> (filter (\<lambda>h'. key_of h' = key_of h) (ingested Direct_gauge lenderData convexData)
                  = [h]
                \<longrightarrow> direct_gauge (positions r) =
                      Some (position_of (pricePerShare convexData) h))))"
proof (intro conjI ballI impI)
  fix fl
  assume fl: "fl \<in> set (lenders (merge_all_lenders toFixed now lenderData convexData))"
    and ex: "toLowerCase (fl_address fl) \<in> EXCLUDED_CONTRACTS convexData"
  from fl obtain r i where r: "r \<in> set (sorted_records toFixed lenderData convexData)"
    and fl_eq: "fl = format_lender toFixed r i"
    by (rule lender_cases)
  from r obtain k r0 where r0: "map_of (ingest_all lenderData convexData) k = Some r0"
    and r_eq: "r = r0\<lparr>pct_of_vault :=
        toFixed (jsmul (jsdiv (total_shares r0) (totalVaultShares convexData)) (Num 100)) 2\<rparr>"
    by (rule sorted_record_cases)
  have "toLowerCase (address r0) = k"
    using r0 by (rule key_of_record)
  with ex have "k \<in> EXCLUDED_CONTRACTS convexData"
    by (simp add: fl_eq r_eq format_lender_def)
  with r0 have "direct_vault (positions r0) = None \<and> ''direct_vault'' \<notin> set (sources r0)"
    by (rule excluded_record)
  then show "bd_direct_vault (fl_positions fl) = None"
    and "''direct_vault'' \<notin> set (fl_sources fl)"
    by (simp_all add: fl_eq r_eq format_lender_def)
next
  fix h
  assume h: "h \<in> set (convex_active_holders convexData)"
    and pos: "jsgt (parseFloat (h_shares h)) (Num 0)"
  let ?hs = "filter (\<lambda>h'. key_of h' = key_of h) (ingested Convex lenderData convexData)"
  have "h \<in> set (ingested Convex lenderData convexData)"
    using h jsgt_zero_not_skipped [OF pos] by (simp add: parsed_shares_def)
  then obtain r0 where r0: "map_of (ingest_all lenderData convexData) (key_of h) = Some r0"
    and s: "slot Convex r0 = Some (position_of (pricePerShare convexData) (last ?hs))"
    and src: "source_name Convex \<in> set (sources r0)"
    using slot_of_ingested_record by blast
  let ?r = "r0\<lparr>pct_of_vault :=
        toFixed (jsmul (jsdiv (total_shares r0) (totalVaultShares convexData)) (Num 100)) 2\<rparr>"
  have mem: "?r \<in> set (sorted_records toFixed lenderData convexData)"
    using r0 by (rule sorted_record_of)
  then obtain i where out:
    "format_lender toFixed ?r i \<in> set (lenders (merge_all_lenders toFixed now lenderData convexData))"
    using lender_of_record by blast
  have addr: "toLowerCase (fl_address (format_lender toFixed ?r i)) = toLowerCase (h_address h)"
    using key_of_record [OF r0] by (simp add: format_lender_def key_of_def)
  have pos_r: "convex (positions ?r) = Some (position_of (pricePerShare convexData) (last ?hs))"
    using s by simp
  have pos_fl: "bd_convex (fl_positions (format_lender toFixed ?r i)) =
      Some (format_position toFixed (position_of (pricePerShare convexData) (last ?hs)))"
    using s by (simp add: format_lender_def)
  have src_fl: "''convex'' \<in> set (fl_sources (format_lender toFixed ?r i))"
    using src by (simp add: format_lender_def)
  have only: "?hs = [h] \<longrightarrow>
      convex (positions ?r) = Some (position_of (pricePerShare convexData) h)"
    using pos_r by simp
  show "\<exists>r i fl.
           r \<in> set (sorted_records toFixed lenderData convexData)
           \<and> fl = format_lender toFixed r i
           \<and> fl \<in> set (lenders (merge_all_lenders toFixed now lenderData convexData))
           \<and> toLowerCase (fl_address fl) = toLowerCase (h_address h)
           \<and> convex (positions r) =
               Some (position_of (pricePerShare convexData)
                       (last (filter (\<lambda>h'. key_of h' = key_of h)
                                (ingested Convex lenderData convexData))))
           \<and> bd_convex (fl_positions fl) =
               Some (format_position toFixed
                       (position_of (pricePerShare convexData)
                          (last (filter (\<lambda>h'. key_of h' = key_of h)
                                   (ingested Convex lenderData convexData)))))
           \<and> ''convex'' \<in> set (fl_sources fl)
           \<and> (filter (\<lambda>h'. key_of h' = key_of h) (ingested Convex lenderData convexData) = [h]
                \<longrightarrow> convex (positions r) = Some (position_of (pricePerShare convexData) h))"
    using mem out addr pos_r pos_fl src_fl only by blast
next
  fix h
  assume h: "h \<in> set (direct_gauge_stakers convexData)"
    and pos: "jsgt (parseFloat (h_shares h)) (Num 0)"
  let ?hs = "filter (\<lambda>h'. key_of h' = key_of h) (ingested Direct_gauge lenderData convexData)"
  have "h \<in> set (ingested Direct_gauge lenderData convexData)"
    using h jsgt_zero_not_skipped [OF pos] by (simp add: parsed_shares_def)
  then obtain r0 where r0: "map_of (ingest_all lenderData convexData) (key_of h) = Some r0"
    and s: "slot Direct_gauge r0 = Some (position_of (pricePerShare convexData) (last ?hs))"
    and src: "source_name Direct_gauge \<in> set (sources r0)"
    using slot_of_ingested_record by blast
  let ?r = "r0\<lparr>pct_of_vault :=
        toFixed (jsmul (jsdiv (total_shares r0) (totalVaultShares convexData)) (Num 100)) 2\<rparr>"
  have mem: "?r \<in> set (sorted_records toFixed lenderData convexData)"
    using r0 by (rule sorted_record_of)
  then obtain i where out:
    "format_lender toFixed ?r i \<in> set (lenders (merge_all_lenders toFixed now lenderData convexData))"
    using lender_of_record by blast
  have addr: "toLowerCase (fl_address (format_lender toFixed ?r i)) = toLowerCase (h_address h)"
    using key_of_record [OF r0] by (simp add: format_lender_def key_of_def)
  have pos_r: "direct_gauge (positions ?r) =
      Some (position_of (pricePerShare convexData) (last ?hs))"
    using s by simp
  have pos_fl: "bd_direct_gauge (fl_positions (format_lender toFixed ?r i)) =
      Some (format_position toFixed (position_of (pricePerShare convexData) (last ?hs)))"
    using s by (simp add: format_lender_def)
  have src_fl: "''direct_gauge'' \<in> set (fl_sources (format_lender toFixed ?r i))"
    using src by (simp add: format_lender_def)
  have only: "?hs = [h] \<longrightarrow>
      direct_gauge (positions ?r) = Some (position_of (pricePerShare convexData) h)"
    using pos_r by simp
  show "\<exists>r i fl.
           r \<in> set (sorted_records toFixed lenderData convexData)
           \<and> fl = format_lender toFixed r i
           \<and> fl \<in> set (lenders (merge_all_lenders toFixed now lenderData convexData))
           \<and> toLowerCase (fl_address fl) = toLowerCase (h_address h)
           \<and> direct_gauge (positions r) =
               Some (position_of (pricePerShare convexData)
                       (last (filter (\<lambda>h'. key_of h' = key_of h)
                                (ingested Direct_gauge lenderData convexData))))
           \<and> bd_direct_gauge (fl_positions fl) =
               Some (format_position toFixed
                       (position_of (pricePerShare convexData)
                          (last (filter (\<lambda>h'. key_of h' = key_of h)
                                   (ingested Direct_gauge lenderData convexData)))))
           \<and> ''direct_gauge'' \<in> set (fl_sources fl)
           \<and> (filter (\<lambda>h'. key_of h' = key_of h) (ingested Direct_gauge lenderData convexData)
                  = [h]
                \<longrightarrow> direct_gauge (positions r) =
                      Some (position_of (pricePerShare convexData) h))"
    using mem out addr pos_r pos_fl src_fl only by blast
qed

text \<open>
  An instance: the gauge \<open>0xE1\<close> holds \<open>500\<close> shares directly, \<open>7\<close> shares
  through Convex as \<open>0xe1\<close> and \<open>3\<close> shares staked in the gauge as \<open>0xE1\<close>.
  Its output entry has no direct position; it has the Convex position of \<open>7\<close>
  shares worth \<open>14\<close> and the gauge position of \<open>3\<close> shares worth \<open>6\<close>, lists
  both categories and totals \<open>10\<close> shares.
\<close>

theorem exclusion_witness:
  "toLowerCase ''0xe1'' \<in> EXCLUDED_CONTRACTS exclusion_convex_data
   \<and> entry ''0xe1'' ''7'' \<in> set (convex_active_holders exclusion_convex_data)
   \<and> jsgt (parseFloat (h_shares (entry ''0xe1'' ''7''))) (Num 0)
   \<and> entry ''0xE1'' ''3'' \<in> set (direct_gauge_stakers exclusion_convex_data)
   \<and> jsgt (parseFloat (h_shares (entry ''0xE1'' ''3''))) (Num 0)
   \<and> map fl_address
        (lenders (merge_all_lenders no_format ''now'' exclusion_lender_data exclusion_convex_data)) =
       [''0xAA'', ''0xe1'']
   \<and> map fl_sources
        (lenders (merge_all_lenders no_format ''now'' exclusion_lender_data exclusion_convex_data)) =
       [ [''direct_vault''], [''convex'', ''direct_gauge''] ]
   \<and> map (direct_vault \<circ> positions)
        (sorted_records no_format exclusion_lender_data exclusion_convex_data) =
       [Some \<lparr>shares = Num 100, crvusd_value = Num 200\<rparr>, None]
   \<and> map (convex \<circ> positions)
        (sorted_records no_format exclusion_lender_data exclusion_convex_data) =
       [None, Some \<lparr>shares = Num 7, crvusd_value = Num 14\<rparr>]
   \<and> map (direct_gauge \<circ> positions)
        (sorted_records no_format exclusion_lender_data exclusion_convex_data) =
       [None, Some \<lparr>shares = Num 3, crvusd_value = Num 6\<rparr>]
   \<and> map total_shares
        (sorted_records no_format exclusion_lender_data exclusion_convex_data) =
       [Num 100, Num 10]
   \<and> list_all
        (\<lambda>fl. toLowerCase (fl_address fl) \<in> EXCLUDED_CONTRACTS exclusion_convex_data \<longrightarrow>
           bd_direct_vault (fl_positions fl) = None \<and> ''direct_vault'' \<notin> set (fl_sources fl))
        (lenders (merge_all_lenders no_format ''now'' exclusion_lender_data exclusion_convex_data))
   \<and> (\<exists>r i fl.
         r \<in> set (sorted_records no_format exclusion_lender_data exclusion_convex_data)
         \<and> fl = format_lender no_format r i
         \<and> fl \<in> set (lenders (merge_all_lenders no_format ''now'' exclusion_lender_data
                                exclusion_convex_data))
         \<and> toLowerCase (fl_address fl) = toLowerCase (h_address (entry ''0xe1'' ''7''))
         \<and> convex (positions r) = Some \<lparr>shares = Num 7, crvusd_value = Num 14\<rparr>
         \<and> bd_convex (fl_positions fl) =
             Some (format_position no_format \<lparr>shares = Num 7, crvusd_value = Num 14\<rparr>)
         \<and> ''convex'' \<in> set (fl_sources fl))
   \<and> (\<exists>r i fl.
         r \<in> set (sorted_records no_format exclusion_lender_data exclusion_convex_data)
         \<and> fl = format_lender no_format r i
         \<and> fl \<in> set (lenders (merge_all_lenders no_format ''now'' exclusion_lender_data
                                exclusion_convex_data))
         \<and> toLowerCase (fl_address fl) = toLowerCase (h_address (entry ''0xE1'' ''3''))
         \<and> direct_gauge (positions r) = Some \<lparr>shares = Num 3, crvusd_value = Num 6\<rparr>
         \<and> bd_direct_gauge (fl_positions fl) =
             Some (format_position no_format \<lparr>shares = Num 3, crvusd_value = Num 6\<rparr>)
         \<and> ''direct_gauge'' \<in> set (fl_sources fl))"
proof -
  have ex: "toLowerCase ''0xe1'' \<in> EXCLUDED_CONTRACTS exclusion_convex_data"
    by (simp add: merge_eval parse_eval)
  have mem: "entry ''0xe1'' ''7'' \<in> set (convex_active_holders exclusion_convex_data)"
    by (simp add: merge_eval)
  have pos: "jsgt (parseFloat (h_shares (entry ''0xe1'' ''7''))) (Num 0)"
    by (simp add: entry_def parse_eval jsgt_def)
  have gmem: "entry ''0xE1'' ''3'' \<in> set (direct_gauge_stakers exclusion_convex_data)"
    by (simp add: merge_eval)
  have gpos: "jsgt (parseFloat (h_shares (entry ''0xE1'' ''3''))) (Num 0)"
    by (simp add: entry_def parse_eval jsgt_def)
  have out: "map fl_address
        (lenders (merge_all_lenders no_format ''now'' exclusion_lender_data exclusion_convex_data)) =
       [''0xAA'', ''0xe1'']
     \<and> map fl_sources
        (lenders (merge_all_lenders no_format ''now'' exclusion_lender_data exclusion_convex_data)) =
       [ [''direct_vault''], [''convex'', ''direct_gauge''] ]"
    by (simp add: output_eval sort_eval merge_eval parse_eval)
  have slots: "map (direct_vault \<circ> positions)
        (sorted_records no_format exclusion_lender_data exclusion_convex_data) =
       [Some \<lparr>shares = Num 100, crvusd_value = Num 200\<rparr>, None]
     \<and> map (convex \<circ> positions)
        (sorted_records no_format exclusion_lender_data exclusion_convex_data) =
       [None, Some \<lparr>shares = Num 7, crvusd_value = Num 14\<rparr>]
     \<and> map (direct_gauge \<circ> positions)
        (sorted_records no_format exclusion_lender_data exclusion_convex_data) =
       [None, Some \<lparr>shares = Num 3, crvusd_value = Num 6\<rparr>]
     \<and> map total_shares
        (sorted_records no_format exclusion_lender_data exclusion_convex_data) =
       [Num 100, Num 10]"
    by (simp add: sort_eval merge_eval parse_eval)
  have c_pos: "position_of (pricePerShare exclusion_convex_data)
        (last (filter (\<lambda>h'. key_of h' = key_of (entry ''0xe1'' ''7''))
                 (ingested Convex exclusion_lender_data exclusion_convex_data))) =
      \<lparr>shares = Num 7, crvusd_value = Num 14\<rparr>"
    by (simp add: merge_eval vocabulary_eval parse_eval)
  have g_pos: "position_of (pricePerShare exclusion_convex_data)
        (last (filter (\<lambda>h'. key_of h' = key_of (entry ''0xE1'' ''3''))
                 (ingested Direct_gauge exclusion_lender_data exclusion_convex_data))) =
      \<lparr>shares = Num 3, crvusd_value = Num 6\<rparr>"
    by (simp add: merge_eval vocabulary_eval parse_eval)
  note inst = exclusion [of no_format "''now''" exclusion_lender_data exclusion_convex_data]
  have first: "list_all
        (\<lambda>fl. toLowerCase (fl_address fl) \<in> EXCLUDED_CONTRACTS exclusion_convex_data \<longrightarrow>
           bd_direct_vault (fl_positions fl) = None \<and> ''direct_vault'' \<notin> set (fl_sources fl))
        (lenders (merge_all_lenders no_format ''now'' exclusion_lender_data exclusion_convex_data))"
    unfolding list_all_iff using inst by blast
  have second: "\<exists>r i fl.
         r \<in> set (sorted_records no_format exclusion_lender_data exclusion_convex_data)
         \<and> fl = format_lender no_format r i
         \<and> fl \<in> set (lenders (merge_all_lenders no_format ''now'' exclusion_lender_data
                                exclusion_convex_data))
         \<and> toLowerCase (fl_address fl) = toLowerCase (h_address (entry ''0xe1'' ''7''))
         \<and> convex (positions r) = Some \<lparr>shares = Num 7, crvusd_value = Num 14\<rparr>
         \<and> bd_convex (fl_positions fl) =
             Some (format_position no_format \<lparr>shares = Num 7, crvusd_value = Num 14\<rparr>)
         \<and> ''convex'' \<in> set (fl_sources fl)"
    using inst mem pos unfolding c_pos [symmetric] by blast
  have third: "\<exists>r i fl.
         r \<in> set (sorted_records no_format exclusion_lender_data exclusion_convex_data)
         \<and> fl = format_lender no_format r i
         \<and> fl \<in> set (lenders (merge_all_lenders no_format ''now'' exclusion_lender_data
                                exclusion_convex_data))
         \<and> toLowerCase (fl_address fl) = toLowerCase (h_address (entry ''0xE1'' ''3''))
         \<and> direct_gauge (positions r) = Some \<lparr>shares = Num 3, crvusd_value = Num 6\<rparr>
         \<and> bd_direct_gauge (fl_positions fl) =
             Some (format_position no_format \<lparr>shares = Num 3, crvusd_value = Num 6\<rparr>)
         \<and> ''direct_gauge'' \<in> set (fl_sources fl)"
    using inst gmem gpos unfolding g_pos [symmetric] by blast
  show ?thesis
    using ex mem pos gmem gpos out slots first second third by blast
qed

subsection \<open>A shares field that does not parse\<close>




section \<open>The event classifier\<close>

subsection \<open>One iteration of the loop\<close>

lemma process_event_record:
  "map_of (borrowerSummary (process_event st event)) (user event) =
     Some (account_event event (borrower_before st event))"
  by (auto simp add: process_event_def borrower_before_def Let_def update_conv' map_add_def split: option.splits)

lemma console_process_event:
  "console (process_event st event) =
     (if isLeverage event \<and> \<not> isExtended event then console st @ [warning_line event]
      else console st)"
  by (simp add: process_event_def Let_def)

lemma classification_cases:
  "classification event \<in>
     {''create_loan (standard)'', ''create_loan_extended (LEVERAGE)'',
      ''borrow_more_extended (LEVERAGE)'', ''borrow_more (standard)'',
      ''add_collateral (no borrow)'', ''UNKNOWN''}"
  by (simp add: classification_def OBSERVED_SELECTORS_def)

lemma events_account_event:
  "events (account_event event b) \<noteq> []
   \<and> ev_classification (last (events (account_event event b))) = classification event
   \<and> ev_isLeverage (last (events (account_event event b))) = isLeverage event"
  by (simp add: account_event_def Let_def)

lemma counts_account_event:
  "leverageCount (account_event event b) =
     (if isLeverage event then leverageCount b + 1 else leverageCount b)
   \<and> standardCount (account_event event b) =
     (if \<not> isLeverage event
         \<and> (str_includes (classification event) ''borrow''
            \<or> str_includes (classification event) ''create'')
      then standardCount b + 1 else standardCount b)"
  by (simp add: account_event_def Let_def)

lemma standard_account_event:
  assumes "\<not> isLeverage event"
    and "str_includes (classification event) ''borrow''
         \<or> str_includes (classification event) ''create''"
  shows "standardCollateral (account_event event b) =
           jsadd (standardCollateral b) (collateral_increase_squid event)
       \<and> standardBorrowed (account_event event b) =
           jsadd (standardBorrowed b) (loan_increase_crvusd event)
       \<and> standardCount (account_event event b) = standardCount b + 1
       \<and> leverageCollateral (account_event event b) = leverageCollateral b
       \<and> leverageBorrowed (account_event event b) = leverageBorrowed b
       \<and> leverageCount (account_event event b) = leverageCount b"
  using assms by (simp add: account_event_def Let_def)

lemma neither_account_event:
  assumes "\<not> isLeverage event"
    and "\<not> (str_includes (classification event) ''borrow''
         \<or> str_includes (classification event) ''create'')"
  shows "standardCollateral (account_event event b) = standardCollateral b
       \<and> standardBorrowed (account_event event b) = standardBorrowed b
       \<and> leverageCollateral (account_event event b) = leverageCollateral b
       \<and> leverageBorrowed (account_event event b) = leverageBorrowed b"
  using assms by (simp add: account_event_def Let_def)

lemma branch_of_classification:
  "(\<not> isLeverage event
    \<and> \<not> (str_includes (classification event) ''borrow''
         \<or> str_includes (classification event) ''create''))
   = (classification event = ''UNKNOWN'')"
  using classification_cases [of event] by (auto simp: isLeverage_def)

lemmas classifier_eval =
  process_event_def classification_def OBSERVED_SELECTORS_def isLeverage_def isExtended_def
  warning_line_def new_borrower_def account_event_def example_event_def empty_state_def
  borrower_before_def mismatch_def Let_def

subsection \<open>Table and log-count heuristic\<close>

text \<open>
  Claim C7, as amended. The category of an event is the label the selector table
  gives (\<open>UNKNOWN\<close> for a selector that is not in it), whatever the log count,
  and it is the category stored with the event. The log count is used for a
  warning only, and in one direction only: a line is printed exactly when the
  table says leverage and the event has at most \<open>10\<close> logs. The loop body is a
  total function: there is no error.
\<close>

theorem cross_check:
  "console (process_event st event) =
     (if isLeverage event \<and> totalLogCount event \<le> 10 then console st @ [warning_line event]
      else console st)
   \<and> classification (event\<lparr>totalLogCount := n\<rparr>) = classification event
   \<and> isLeverage (event\<lparr>totalLogCount := n\<rparr>) = isLeverage event
   \<and> classification event =
       (case map_of OBSERVED_SELECTORS (functionSelector event) of
          None \<Rightarrow> ''UNKNOWN'' | Some label \<Rightarrow> label)
   \<and> (\<exists>b. map_of (borrowerSummary (process_event st event)) (user event) = Some b
          \<and> events b \<noteq> []
          \<and> ev_classification (last (events b)) = classification event
          \<and> ev_isLeverage (last (events b)) = isLeverage event)"
proof -
  have "console (process_event st event) =
     (if isLeverage event \<and> totalLogCount event \<le> 10 then console st @ [warning_line event]
      else console st)"
    by (simp add: console_process_event isExtended_def not_less)
  moreover have "classification (event\<lparr>totalLogCount := n\<rparr>) = classification event"
    by (simp add: classification_def)
  moreover have "isLeverage (event\<lparr>totalLogCount := n\<rparr>) = isLeverage event"
    by (simp add: isLeverage_def classification_def)
  moreover have "classification event =
       (case map_of OBSERVED_SELECTORS (functionSelector event) of
          None \<Rightarrow> ''UNKNOWN'' | Some label \<Rightarrow> label)"
    by (simp add: classification_def OBSERVED_SELECTORS_def)
  moreover have "\<exists>b. map_of (borrowerSummary (process_event st event)) (user event) = Some b
          \<and> events b \<noteq> []
          \<and> ev_classification (last (events b)) = classification event
          \<and> ev_isLeverage (last (events b)) = isLeverage event"
    using process_event_record [of st event] events_account_event by blast
  ultimately show ?thesis by blast
qed

text \<open>An instance: a leverage selector with \<open>6\<close> logs prints the warning and stays leverage.\<close>

theorem cross_check_witness:
  "isLeverage (example_event ''0x4ba96d46'' 6 1000 50)
   \<and> mismatch (example_event ''0x4ba96d46'' 6 1000 50)
   \<and> console (process_event empty_state (example_event ''0x4ba96d46'' 6 1000 50)) =
       [''  WARNING: 0x7a classified as leverage but only 6 logs'']
   \<and> classification (example_event ''0x4ba96d46'' 6 1000 50) = ''create_loan_extended (LEVERAGE)''"
proof -
  have lev: "isLeverage (example_event ''0x4ba96d46'' 6 1000 50)"
    by (simp add: classifier_eval)
  have few: "totalLogCount (example_event ''0x4ba96d46'' 6 1000 50) \<le> 10"
    by (simp add: example_event_def)
  have line: "warning_line (example_event ''0x4ba96d46'' 6 1000 50) =
                ''  WARNING: 0x7a classified as leverage but only 6 logs''"
    by (simp add: warning_line_def example_event_def nat_to_string.simps)
  have cls: "(case map_of OBSERVED_SELECTORS (functionSelector (example_event ''0x4ba96d46'' 6 1000 50)) of
          None \<Rightarrow> ''UNKNOWN'' | Some label \<Rightarrow> label) = ''create_loan_extended (LEVERAGE)''"
    by (simp add: OBSERVED_SELECTORS_def example_event_def)
  have mm: "mismatch (example_event ''0x4ba96d46'' 6 1000 50)"
    by (simp add: classifier_eval)
  show ?thesis
    using cross_check [of empty_state "example_event ''0x4ba96d46'' 6 1000 50" 0] lev few mm
    by (simp add: line cls empty_state_def)
qed

text \<open>
  The claim as stated, a warning for any mismatch, fails in the other
  direction: a selector the table calls standard with \<open>50\<close> logs is a mismatch
  and prints nothing.
\<close>

theorem cross_check_counterexample:
  "classification (example_event ''0x23cfed03'' 50 1000 50) = ''create_loan (standard)''
   \<and> isExtended (example_event ''0x23cfed03'' 50 1000 50)
   \<and> mismatch (example_event ''0x23cfed03'' 50 1000 50)
   \<and> console (process_event empty_state (example_event ''0x23cfed03'' 50 1000 50)) = []"
  by (simp add: classifier_eval)

subsection \<open>Which events count as standard\<close>

text \<open>
  Claim C10. After the loop body, the record of the event's user has the
  standard totals increased by the event's amounts and the standard count by one
  when the event is classified \<open>add_collateral (no borrow)\<close>, the label of
  selector \<open>0x24049e57\<close>, which contains \<open>borrow\<close>. Both counts stay as they were
  exactly when the event is classified \<open>UNKNOWN\<close>, and then the four leverage
  and standard sums stay as well.
\<close>

theorem standard_totals:
  "\<exists>b. map_of (borrowerSummary (process_event st event)) (user event) = Some b
      \<and> (classification event = ''add_collateral (no borrow)'' \<longrightarrow>
           standardCollateral b =
             jsadd (standardCollateral (borrower_before st event)) (collateral_increase_squid event)
         \<and> standardBorrowed b =
             jsadd (standardBorrowed (borrower_before st event)) (loan_increase_crvusd event)
         \<and> standardCount b = standardCount (borrower_before st event) + 1)
      \<and> ((leverageCount b = leverageCount (borrower_before st event)
           \<and> standardCount b = standardCount (borrower_before st event))
          = (classification event = ''UNKNOWN''))
      \<and> (classification event = ''UNKNOWN'' \<longrightarrow>
           leverageCollateral b = leverageCollateral (borrower_before st event)
         \<and> leverageBorrowed b = leverageBorrowed (borrower_before st event)
         \<and> standardCollateral b = standardCollateral (borrower_before st event)
         \<and> standardBorrowed b = standardBorrowed (borrower_before st event))
      \<and> (functionSelector event = ''0x24049e57'' \<longrightarrow>
           classification event = ''add_collateral (no borrow)'')
      \<and> str_includes ''add_collateral (no borrow)'' ''borrow''"
proof -
  let ?before = "borrower_before st event"
  let ?after = "account_event event ?before"
  have rec: "map_of (borrowerSummary (process_event st event)) (user event) = Some ?after"
    by (rule process_event_record)
  have add: "standardCollateral ?after = jsadd (standardCollateral ?before) (collateral_increase_squid event)
         \<and> standardBorrowed ?after = jsadd (standardBorrowed ?before) (loan_increase_crvusd event)
         \<and> standardCount ?after = standardCount ?before + 1"
    if "classification event = ''add_collateral (no borrow)''"
  proof -
    have "\<not> isLeverage event"
      using that by (simp add: isLeverage_def)
    moreover have "str_includes (classification event) ''borrow''
                   \<or> str_includes (classification event) ''create''"
      using that by simp
    ultimately show ?thesis
      using standard_account_event [where event = event and b = ?before] by simp
  qed
  have iff: "(leverageCount ?after = leverageCount ?before \<and> standardCount ?after = standardCount ?before)
             = (classification event = ''UNKNOWN'')"
    using branch_of_classification [of event] counts_account_event [where event = event and b = ?before]
    by (auto split: if_splits)
  have unk: "leverageCollateral ?after = leverageCollateral ?before
         \<and> leverageBorrowed ?after = leverageBorrowed ?before
         \<and> standardCollateral ?after = standardCollateral ?before
         \<and> standardBorrowed ?after = standardBorrowed ?before"
    if "classification event = ''UNKNOWN''"
    using that branch_of_classification [of event]
      neither_account_event [where event = event and b = ?before]
    by simp
  have sel: "functionSelector event = ''0x24049e57'' \<longrightarrow>
           classification event = ''add_collateral (no borrow)''"
    by (simp add: classification_def OBSERVED_SELECTORS_def)
  have inc: "str_includes ''add_collateral (no borrow)'' ''borrow''"
    by simp
  show ?thesis
    using rec add iff unk sel inc by blast
qed

text \<open>
  An instance: an add-collateral event of \<open>1000\<close> is in the standard totals of
  a new borrower; an event with an unknown selector is in neither.
\<close>

theorem standard_totals_witness:
  "functionSelector (example_event ''0x24049e57'' 6 1000 0) = ''0x24049e57''
   \<and> classification (example_event ''0x24049e57'' 6 1000 0) = ''add_collateral (no borrow)''
   \<and> (\<exists>b. map_of (borrowerSummary (process_event empty_state (example_event ''0x24049e57'' 6 1000 0)))
            ''0xB0'' = Some b
         \<and> standardCollateral b = Num 1000
         \<and> standardBorrowed b = Num 0
         \<and> standardCount b = 1)
   \<and> classification (example_event ''0xffffffff'' 6 1000 0) = ''UNKNOWN''
   \<and> (\<exists>b. map_of (borrowerSummary (process_event empty_state (example_event ''0xffffffff'' 6 1000 0)))
            ''0xB0'' = Some b
         \<and> standardCount b = 0
         \<and> leverageCount b = 0)"
proof -
  have c1: "classification (example_event ''0x24049e57'' 6 1000 0) = ''add_collateral (no borrow)''"
    by (simp add: classifier_eval)
  have c2: "classification (example_event ''0xffffffff'' 6 1000 0) = ''UNKNOWN''"
    by (simp add: classifier_eval)
  have b0: "standardCollateral (borrower_before empty_state (example_event sel 6 1000 0)) = Num 0
          \<and> standardBorrowed (borrower_before empty_state (example_event sel 6 1000 0)) = Num 0
          \<and> standardCount (borrower_before empty_state (example_event sel 6 1000 0)) = 0
          \<and> leverageCount (borrower_before empty_state (example_event sel 6 1000 0)) = 0" for sel
    by (simp add: borrower_before_def empty_state_def new_borrower_def)
  have u: "user (example_event sel 6 1000 0) = ''0xB0''
         \<and> collateral_increase_squid (example_event sel 6 1000 0) = Num 1000
         \<and> loan_increase_crvusd (example_event sel 6 1000 0) = Num 0
         \<and> functionSelector (example_event sel 6 1000 0) = sel" for sel
    by (simp add: example_event_def)
  show ?thesis
    using standard_totals [of empty_state "example_event ''0x24049e57'' 6 1000 0"]
      standard_totals [of empty_state "example_event ''0xffffffff'' 6 1000 0"]
    by (simp add: c1 c2 b0 u) blast
qed

end
